theory Spec2Isabelle
  imports Main "HOL-Library.Sublist"
begin

section \<open>Upgrade-test: a shallow embedding of the reconciler, the orchestrator and the path sanitiser\<close>

text \<open>
  The theory follows the Go sources of the upgrade-test tool. Every function that talks to the
  cluster, sleeps, runs a process or writes an error-level log line takes the journal of
  everything that has happened so far and returns it extended; the answers of the outside
  world are an arbitrary function of that journal, so a statement proved for every
  environment holds for every execution.
\<close>

subsection \<open>Strings (package \<open>strings\<close>) and \<open>sanitizePath\<close> (pkg/git/git.go)\<close>

text \<open>
  A Go string is a byte sequence. \<open>strings.Split\<close> with a one-byte separator always returns
  at least one part; \<open>strings.Join\<close> puts the separator between the parts.
\<close>

definition PathSeparator :: char where
  "PathSeparator = CHR ''/''"

fun Split :: "string \<Rightarrow> char \<Rightarrow> string list" where
  "Split [] sep = [[]]"
| "Split (c # cs) sep =
     (if c = sep then [] # Split cs sep
      else (case Split cs sep of
              [] \<Rightarrow> [[c]]
            | part # parts \<Rightarrow> (c # part) # parts))"

fun Join :: "string list \<Rightarrow> char \<Rightarrow> string" where
  "Join [] sep = []"
| "Join [p] sep = p"
| "Join (p # q # ps) sep = p @ sep # Join (q # ps) sep"

definition between :: "char \<Rightarrow> char \<Rightarrow> char \<Rightarrow> bool" where
  "between lo hi r = ((of_char lo :: nat) \<le> of_char r \<and> (of_char r :: nat) \<le> of_char hi)"

text \<open>
  The function literal handed to \<open>strings.Map\<close> in \<open>sanitizePath\<close>. The source compares
  against digits, upper-case and lower-case letters, the underscore and the dot; the hyphen
  that its comment announces is not among the tests.

  \<open>strings.Map\<close> walks over runes, the model over bytes. Every rune that is not ASCII (and
  every byte of an invalid encoding) is sent to one underscore by the source and to a run of
  underscores by the model; the replacement of \<open>_+\<close> that follows at once turns both into
  the same string, and the separator byte never occurs inside a longer rune.
\<close>

definition sanitizeRune :: "char \<Rightarrow> char" where
  "sanitizeRune r =
     (if between CHR ''0'' CHR ''9'' r \<or> between CHR ''A'' CHR ''Z'' r \<or>
         between CHR ''a'' CHR ''z'' r \<or> r = CHR ''_'' \<or> r = CHR ''.''
      then r else CHR ''_'')"

text \<open>\<open>regexp.MustCompile(`_+`).ReplaceAllString(s, "_")\<close>: every maximal run of
  underscores becomes one underscore.\<close>

fun collapseUnderscores :: "string \<Rightarrow> string" where
  "collapseUnderscores [] = []"
| "collapseUnderscores [c] = [c]"
| "collapseUnderscores (c # d # cs) =
     (if c = CHR ''_'' \<and> d = CHR ''_'' then collapseUnderscores (d # cs)
      else c # collapseUnderscores (d # cs))"

text \<open>The body of the loop over the parts, and the function itself.\<close>

definition sanitizePart :: "string \<Rightarrow> string" where
  "sanitizePart part = collapseUnderscores (map sanitizeRune part)"

definition sanitizePath :: "string \<Rightarrow> string" where
  "sanitizePath path = Join (map sanitizePart (Split path PathSeparator)) PathSeparator"

text \<open>Vocabulary for the statements about \<open>sanitizePath\<close>: the character classes of the
  specification, and whether a string has two underscores in a row.\<close>

definition alnum :: "char \<Rightarrow> bool" where
  "alnum r = (between CHR ''0'' CHR ''9'' r \<or> between CHR ''A'' CHR ''Z'' r \<or>
              between CHR ''a'' CHR ''z'' r)"

definition in_charset :: "char \<Rightarrow> bool" where
  "in_charset r = (alnum r \<or> r = CHR ''_'' \<or> r = CHR ''.'' \<or> r = CHR ''-'')"

fun has_double_underscore :: "string \<Rightarrow> bool" where
  "has_double_underscore (c # d # cs) =
     ((c = CHR ''_'' \<and> d = CHR ''_'') \<or> has_double_underscore (d # cs))"
| "has_double_underscore cs = False"

text \<open>What the specification asks of one character, with the separator kept as well.\<close>

definition retain :: "char \<Rightarrow> char" where
  "retain r = (if in_charset r \<or> r = PathSeparator then r else CHR ''_'')"

subsection \<open>Errors and results\<close>

text \<open>
  A Go \<open>error\<close> is either a status error of the cluster API, which carries the reason that
  \<open>errors.IsNotFound\<close> and \<open>errors.IsAlreadyExists\<close> look at, or a plain message, which is
  what \<open>fmt.Errorf\<close> with \<open>%v\<close> produces: the message of the inner error is copied and its
  reason is lost.
\<close>

datatype StatusReason = NotFound | AlreadyExists | OtherReason

datatype go_error =
    StatusError StatusReason string
  | ErrorString string

fun Error :: "go_error \<Rightarrow> string" where
  "Error (StatusError reason msg) = msg"
| "Error (ErrorString msg) = msg"

fun IsNotFound :: "go_error \<Rightarrow> bool" where
  "IsNotFound (StatusError reason msg) = (reason = NotFound)"
| "IsNotFound (ErrorString msg) = False"

fun IsAlreadyExists :: "go_error \<Rightarrow> bool" where
  "IsAlreadyExists (StatusError reason msg) = (reason = AlreadyExists)"
| "IsAlreadyExists (ErrorString msg) = False"

text \<open>\<open>fmt.Errorf(msg + "%v", err)\<close>, and \<open>%v\<close> of an error variable that may be nil.\<close>

definition Errorf :: "string \<Rightarrow> go_error \<Rightarrow> go_error" where
  "Errorf msg e = ErrorString (msg @ Error e)"

fun fmt_v :: "go_error option \<Rightarrow> string" where
  "fmt_v None = ''<nil>''"
| "fmt_v (Some e) = Error e"

definition DeadlineExceeded :: go_error where
  "DeadlineExceeded = ErrorString ''context deadline exceeded''"

text \<open>A call returns a value, returns an error, or panics.\<close>

datatype 'a result = Ok 'a | Err go_error | Panic string

subsection \<open>Unstructured objects\<close>

text \<open>
  \<open>unstructured.Unstructured\<close> wraps a \<open>map[string]interface{}\<close>. The keys of a Go map are
  unique and unordered; the model keeps them in an association list and reads it with
  \<open>map_of\<close>.
\<close>

datatype json =
    JNull
  | JBool bool
  | JString string
  | JMap "(string \<times> json) list"
  | JSlice "json list"

fun nested :: "json \<Rightarrow> string list \<Rightarrow> json option" where
  "nested v [] = Some v"
| "nested (JMap m) (f # fs) = (case map_of m f of None \<Rightarrow> None | Some v \<Rightarrow> nested v fs)"
| "nested v (f # fs) = None"

text \<open>
  The accessors of the \<open>unstructured\<close> package and of the JSON-path library, as the sources
  use them: the error result is always dropped, so a missing field and a field of the wrong
  type both read as the zero value with \<open>found = false\<close>. A nil map reads like an empty one.
\<close>

definition NestedString :: "json \<Rightarrow> string list \<Rightarrow> string \<times> bool" where
  "NestedString obj fields =
     (case nested obj fields of Some (JString s) \<Rightarrow> (s, True) | _ \<Rightarrow> ('''', False))"

definition NestedMap :: "json \<Rightarrow> string list \<Rightarrow> (string \<times> json) list" where
  "NestedMap obj fields = (case nested obj fields of Some (JMap m) \<Rightarrow> m | _ \<Rightarrow> [])"

definition NestedSlice :: "json \<Rightarrow> string list \<Rightarrow> json list" where
  "NestedSlice obj fields = (case nested obj fields of Some (JSlice xs) \<Rightarrow> xs | _ \<Rightarrow> [])"

definition JsonPathLookup :: "json \<Rightarrow> string list \<Rightarrow> json option" where
  "JsonPathLookup obj keys = nested obj keys"

definition GetName :: "json \<Rightarrow> string" where
  "GetName obj = fst (NestedString obj [''metadata'', ''name''])"

definition GetAPIVersion :: "json \<Rightarrow> string" where
  "GetAPIVersion obj = fst (NestedString obj [''apiVersion''])"

definition GetKind :: "json \<Rightarrow> string" where
  "GetKind obj = fst (NestedString obj [''kind''])"

definition GetUID :: "json \<Rightarrow> string" where
  "GetUID obj = fst (NestedString obj [''metadata'', ''uid''])"

text \<open>Assignment to a key of a map, and \<open>SetOwnerReferences\<close> with one reference.\<close>

fun setKey :: "(string \<times> json) list \<Rightarrow> string \<Rightarrow> json \<Rightarrow> (string \<times> json) list" where
  "setKey [] k v = [(k, v)]"
| "setKey (kv # m) k v = (if fst kv = k then (k, v) # m else kv # setKey m k v)"

definition SetOwnerReferences :: "json \<Rightarrow> json \<Rightarrow> json" where
  "SetOwnerReferences obj ref =
     (case obj of
        JMap m \<Rightarrow> JMap (setKey m ''metadata''
                   (JMap (setKey (NestedMap obj [''metadata'']) ''ownerReferences'' (JSlice [ref]))))
      | _ \<Rightarrow> obj)"

text \<open>\<open>strings.Contains\<close>.\<close>

fun HasPrefix :: "string \<Rightarrow> string \<Rightarrow> bool" where
  "HasPrefix s [] = True"
| "HasPrefix [] (p # ps) = False"
| "HasPrefix (c # cs) (p # ps) = (c = p \<and> HasPrefix cs ps)"

fun Contains :: "string \<Rightarrow> string \<Rightarrow> bool" where
  "Contains [] substr = (substr = [])"
| "Contains (c # cs) substr = (HasPrefix (c # cs) substr \<or> Contains cs substr)"

subsection \<open>The cluster, the clock and the journal\<close>

record GroupVersionResource =
  Group :: string
  Version :: string
  Resource :: string

definition systemNamespace :: string where
  "systemNamespace = ''cpaas-system''"

definition artifactGVR :: GroupVersionResource where
  "artifactGVR = \<lparr>Group = ''app.alauda.io'', Version = ''v1alpha1'', Resource = ''artifacts''\<rparr>"

definition artifactVersionGVR :: GroupVersionResource where
  "artifactVersionGVR =
     \<lparr>Group = ''app.alauda.io'', Version = ''v1alpha1'', Resource = ''artifactversions''\<rparr>"

definition subscriptionGVR :: GroupVersionResource where
  "subscriptionGVR =
     \<lparr>Group = ''operators.coreos.com'', Version = ''v1alpha1'', Resource = ''subscriptions''\<rparr>"

definition namespaceGVR :: GroupVersionResource where
  "namespaceGVR = \<lparr>Group = '''', Version = ''v1'', Resource = ''namespaces''\<rparr>"

definition installPlanGVR :: GroupVersionResource where
  "installPlanGVR =
     \<lparr>Group = ''operators.coreos.com'', Version = ''v1alpha1'', Resource = ''installplans''\<rparr>"

definition packageManifestGVR :: GroupVersionResource where
  "packageManifestGVR =
     \<lparr>Group = ''packages.operators.coreos.com'', Version = ''v1'', Resource = ''packagemanifests''\<rparr>"

definition csvGVR :: GroupVersionResource where
  "csvGVR =
     \<lparr>Group = ''operators.coreos.com'', Version = ''v1alpha1'',
      Resource = ''clusterserviceversions''\<rparr>"

text \<open>
  The four operations of the dynamic client that the sources use. The second argument is the
  namespace, empty for a cluster-scoped call. The client answers with an object or with an
  error, never with both; the object that answers a \<open>Delete\<close> is ignored.
\<close>

datatype call =
    Get GroupVersionResource string string
  | Create GroupVersionResource string json
  | Update GroupVersionResource string json
  | Delete GroupVersionResource string string

type_synonym response = "go_error + json"

text \<open>\<open>exec.Command\<close>.\<close>

record Command =
  Name :: string
  Args :: "string list"
  Dir :: string
  Env :: "string list"

text \<open>
  What an execution leaves behind, oldest entry first: the calls to the cluster with their
  answers, \<open>time.Sleep\<close> with its duration in nanoseconds, the passing of one polling
  interval, the processes run with the error of their result, and the call of \<open>logger.Error\<close> in
  the path loop with its message, the path's name and the error (whether the line is written
  depends on the configured level). Informational log calls are not recorded.
\<close>

datatype event =
    Call call response
  | Sleep int
  | Tick int
  | Run Command "go_error option"
  | LogError string string go_error

type_synonym journal = "event list"

subsection \<open>The configuration (pkg/config)\<close>

record Version =
  Name :: string
  BundleVersion :: string
  TestCommand :: string
  TestSubPath :: string
  Channel :: string

record UpgradePath =
  Name :: string
  Versions :: "Version list"

record OperatorConfig =
  Type :: string
  Artifact :: string
  Namespace :: string
  Name :: string
  Workspace :: string
  ArtifactPrefix :: string
  Interval :: int
  Timeout :: int
  Command :: string

record Config =
  UpgradePaths :: "UpgradePath list"
  Immediate :: bool
  LogLevel :: string
  OperatorConfig :: OperatorConfig

subsection \<open>The environment\<close>

text \<open>
  The environment: every answer of the outside world is a function of the journal so far.
  \<open>ticks\<close> is the number of polling intervals that pass before the deadline of a poll that
  starts now, given its interval and timeout; the remaining fields stand for the file system
  and the libraries that \<open>Execute\<close> calls before its loop.
\<close>

record env =
  respond :: "journal \<Rightarrow> call \<Rightarrow> response"
  ticks :: "journal \<Rightarrow> int \<Rightarrow> int \<Rightarrow> nat"
  runProcess :: "journal \<Rightarrow> Command \<Rightarrow> go_error option"
  readConfig :: "string \<Rightarrow> go_error + Config"
  UnmarshalText :: "string \<Rightarrow> go_error option"
  getKubeconfig :: "string \<Rightarrow> string"
  loadKubeConfig :: "string \<Rightarrow> go_error option"
  NewForConfig :: "go_error option"

definition Second :: int where
  "Second = 1000000000"

text \<open>One call of the dynamic client: the environment answers, and the journal records the
  call with its answer.\<close>

definition invoke :: "env \<Rightarrow> call \<Rightarrow> journal \<Rightarrow> json result \<times> journal" where
  "invoke env c t =
     (case respond env t c of
        Inl e \<Rightarrow> (Err e, t @ [Call c (Inl e)])
      | Inr obj \<Rightarrow> (Ok obj, t @ [Call c (Inr obj)]))"

text \<open>The idiom \<^verbatim>\<open>if err != nil { return fmt.Errorf(msg + "%v", err) }\<close>: go on with the
  value, or return the wrapped error; a panic unwinds through every caller.\<close>

definition check ::
  "'a result \<times> journal \<Rightarrow> string \<Rightarrow> ('a \<Rightarrow> journal \<Rightarrow> 'b result \<times> journal) \<Rightarrow> 'b result \<times> journal" where
  "check r msg k =
     (case r of
        (Ok v, t) \<Rightarrow> k v t
      | (Err e, t) \<Rightarrow> (Err (Errorf msg e), t)
      | (Panic p, t) \<Rightarrow> (Panic p, t))"

subsection \<open>Polling (\<open>wait.PollUntilContextTimeout\<close> with \<open>immediate = true\<close>)\<close>

text \<open>
  The condition runs at once, whatever the deadline. While it answers "not yet" without an
  error, the poll waits for the next interval and runs it again, until the deadline has
  passed; then the poll returns the error of the context. The condition may change a
  variable of the enclosing function, which is threaded through as \<open>a\<close>.
\<close>

fun pollLoop ::
  "('a \<Rightarrow> journal \<Rightarrow> (bool \<times> go_error option) \<times> 'a \<times> journal) \<Rightarrow> int \<Rightarrow> nat \<Rightarrow> 'a \<Rightarrow> journal
     \<Rightarrow> go_error option \<times> 'a \<times> journal" where
  "pollLoop condition iv 0 a t = (Some DeadlineExceeded, a, t)"
| "pollLoop condition iv (Suc n) a t =
     (case condition a (t @ [Tick iv]) of
        ((done, err), a', t') \<Rightarrow>
          if err \<noteq> None \<or> done then (err, a', t') else pollLoop condition iv n a' t')"

definition PollUntilContextTimeout ::
  "env \<Rightarrow> int \<Rightarrow> int \<Rightarrow> ('a \<Rightarrow> journal \<Rightarrow> (bool \<times> go_error option) \<times> 'a \<times> journal) \<Rightarrow> 'a \<Rightarrow> journal
     \<Rightarrow> go_error option \<times> 'a \<times> journal" where
  "PollUntilContextTimeout env iv tmo condition a t =
     (case condition a t of
        ((done, err), a', t') \<Rightarrow>
          if err \<noteq> None \<or> done then (err, a', t')
          else pollLoop condition iv (ticks env t iv tmo) a' t')"

subsection \<open>The operator-hub reconciler (pkg/operator/operatorhub)\<close>

text \<open>The \<open>Operator\<close> struct without its client, which is the environment.\<close>

record Operator =
  namespace :: string
  name :: string
  artifact :: string
  timeout :: int
  interval :: int

definition NewOperator :: "env \<Rightarrow> OperatorConfig \<Rightarrow> go_error + Operator" where
  "NewOperator env options =
     (case NewForConfig env of
        Some e \<Rightarrow> Inl e
      | None \<Rightarrow>
          Inr \<lparr>namespace = Namespace options,
               name = OperatorConfig.Name options,
               artifact = (if Artifact options = ''''
                           then ArtifactPrefix options @ ''-'' @ OperatorConfig.Name options
                           else Artifact options),
               timeout = Timeout options,
               interval = Interval options\<rparr>)"

definition GetResource ::
  "env \<Rightarrow> string \<Rightarrow> string \<Rightarrow> GroupVersionResource \<Rightarrow> journal \<Rightarrow> json result \<times> journal" where
  "GetResource env nm ns gvr t = invoke env (Get gvr ns nm) t"

paragraph \<open>\<open>deleteResource\<close>\<close>

text \<open>
  The resource interface \<open>rsAbled\<close> is assigned only when the namespace is not empty; with an
  empty namespace it is still nil when \<open>Delete\<close> is called on it, and the call panics.
\<close>

definition deletedCondition ::
  "env \<Rightarrow> GroupVersionResource \<Rightarrow> string \<Rightarrow> string \<Rightarrow> unit \<Rightarrow> journal
     \<Rightarrow> (bool \<times> go_error option) \<times> unit \<times> journal" where
  "deletedCondition env gvr ns nm a t =
     (case invoke env (Get gvr ns nm) t of
        (Err e, t') \<Rightarrow> if IsNotFound e then ((True, None), a, t') else ((False, Some e), a, t')
      | (r, t') \<Rightarrow> ((False, None), a, t'))"

definition deleteResource ::
  "env \<Rightarrow> Operator \<Rightarrow> GroupVersionResource \<Rightarrow> string \<Rightarrow> string \<Rightarrow> journal \<Rightarrow> unit result \<times> journal" where
  "deleteResource env opr gvr nm ns t =
     (if ns = '''' then (Panic ''runtime error: invalid memory address or nil pointer dereference'', t)
      else
        case invoke env (Delete gvr ns nm) t of
          (r, t1) \<Rightarrow>
            if (case r of Err e \<Rightarrow> \<not> IsNotFound e | _ \<Rightarrow> False)
            then (case r of
                    Err e \<Rightarrow> (Err (ErrorString (''failed to delete resource '' @ nm @ '': '' @ Error e)), t1)
                  | _ \<Rightarrow> (Ok (), t1))
            else
              (case PollUntilContextTimeout env (interval opr) (timeout opr)
                      (deletedCondition env gvr ns nm) () t1 of
                 (Some e, a, t2) \<Rightarrow>
                   (Err (ErrorString (''failed to delete resource '' @ nm @ '': '' @ Error e)), t2)
               | (None, a, t2) \<Rightarrow> (Ok (), t2)))"

paragraph \<open>\<open>createSubscription\<close>\<close>

definition namespaceObject :: "string \<Rightarrow> json" where
  "namespaceObject ns =
     JMap [(''apiVersion'', JString ''v1''),
           (''kind'', JString ''Namespace''),
           (''metadata'', JMap [(''name'', JString ns)])]"

definition subscriptionObject :: "string \<Rightarrow> string \<Rightarrow> string \<Rightarrow> string \<Rightarrow> json" where
  "subscriptionObject nm ns csv channel =
     JMap [(''apiVersion'', JString ''operators.coreos.com/v1alpha1''),
           (''kind'', JString ''Subscription''),
           (''metadata'', JMap [(''name'', JString nm),
                                (''namespace'', JString ns),
                                (''labels'', JMap [(''catalog'', JString ''platform'')])]),
           (''spec'', JMap [(''channel'', JString channel),
                            (''installPlanApproval'', JString ''Manual''),
                            (''name'', JString nm),
                            (''source'', JString ''platform''),
                            (''sourceNamespace'', JString systemNamespace),
                            (''startingCSV'', JString csv)])]"

text \<open>
  The retry loop \<^verbatim>\<open>for attempt := 1; attempt <= 3; attempt++\<close>. \<open>err\<close> is the error variable
  of the function, which the statement after the loop prints.
\<close>

function createLoop ::
  "env \<Rightarrow> call \<Rightarrow> nat \<Rightarrow> go_error option \<Rightarrow> journal \<Rightarrow> json result \<times> journal" where
  "createLoop env c attempt err t =
     (if attempt \<le> 3 then
        (case invoke env c t of
           (Ok result, t1) \<Rightarrow> (Ok result, t1)
         | (Err e, t1) \<Rightarrow>
             if attempt < 3
             then createLoop env c (attempt + 1) (Some e)
                    (t1 @ [Sleep (2 ^ (attempt - 1) * Second)])
             else createLoop env c (attempt + 1) (Some e) t1
         | (Panic p, t1) \<Rightarrow> (Panic p, t1))
      else
        (Err (ErrorString (''failed to create subscription after 3 attempts: '' @ fmt_v err)), t))"
  by pat_completeness auto
termination
  by (relation "measure (\<lambda>(env, c, attempt, err, t). 4 - attempt)") auto

declare createLoop.simps [simp del]

definition createSubscription ::
  "env \<Rightarrow> string \<Rightarrow> string \<Rightarrow> string \<Rightarrow> string \<Rightarrow> journal \<Rightarrow> json result \<times> journal" where
  "createSubscription env nm ns csv channel t =
     (case invoke env (Create namespaceGVR '''' (namespaceObject ns)) t of
        (r, t1) \<Rightarrow>
          if (case r of Err e \<Rightarrow> \<not> IsAlreadyExists e | _ \<Rightarrow> False)
          then (case r of
                  Err e \<Rightarrow> (Err (Errorf ''failed to create namespace: '' e), t1)
                | _ \<Rightarrow> (r, t1))
          else createLoop env (Create subscriptionGVR ns (subscriptionObject nm ns csv channel)) 1
                 (case r of Err e \<Rightarrow> Some e | _ \<Rightarrow> None) t1)"

paragraph \<open>\<open>waitInstallPlan\<close> and \<open>waitCSVReady\<close>\<close>

definition installPlanCondition ::
  "env \<Rightarrow> string \<Rightarrow> string \<Rightarrow> string \<Rightarrow> journal \<Rightarrow> (bool \<times> go_error option) \<times> string \<times> journal" where
  "installPlanCondition env nm ns installPlanName t =
     (case invoke env (Get subscriptionGVR ns nm) t of
        (Err e, t') \<Rightarrow>
          if \<not> IsNotFound e then ((False, Some e), installPlanName, t')
          else ((False, None), installPlanName, t')
      | (Ok obj, t') \<Rightarrow>
          (case JsonPathLookup obj [''status'', ''installplan'', ''name''] of
             Some (JString s) \<Rightarrow>
               if s \<noteq> '''' then ((True, None), s, t') else ((False, None), installPlanName, t')
           | _ \<Rightarrow> ((False, None), installPlanName, t'))
      | (Panic p, t') \<Rightarrow> ((False, None), installPlanName, t'))"

definition waitInstallPlan ::
  "env \<Rightarrow> Operator \<Rightarrow> string \<Rightarrow> string \<Rightarrow> journal \<Rightarrow> string result \<times> journal" where
  "waitInstallPlan env opr nm ns t =
     (case PollUntilContextTimeout env (interval opr) (timeout opr)
             (installPlanCondition env nm ns) '''' t of
        (Some e, installPlanName, t') \<Rightarrow>
          (Err (ErrorString (''timeout waiting for subscription '' @ nm @ '' to have install plan'')), t')
      | (None, installPlanName, t') \<Rightarrow>
          if installPlanName = ''''
          then (Err (ErrorString (''install plan name not found for subscription '' @ nm)), t')
          else (Ok installPlanName, t'))"

definition phaseIs :: "json \<Rightarrow> string \<Rightarrow> bool" where
  "phaseIs obj wanted =
     (case map_of (NestedMap obj [''status'']) ''phase'' of
        Some (JString phase) \<Rightarrow> phase = wanted
      | _ \<Rightarrow> False)"

definition csvReadyCondition ::
  "env \<Rightarrow> string \<Rightarrow> string \<Rightarrow> unit \<Rightarrow> journal \<Rightarrow> (bool \<times> go_error option) \<times> unit \<times> journal" where
  "csvReadyCondition env nm ns a t =
     (case invoke env (Get csvGVR ns nm) t of
        (Err e, t') \<Rightarrow>
          if \<not> IsNotFound e then ((False, Some e), a, t') else ((False, None), a, t')
      | (Ok csv, t') \<Rightarrow> ((phaseIs csv ''Succeeded'', None), a, t')
      | (Panic p, t') \<Rightarrow> ((False, None), a, t'))"

definition waitCSVReady ::
  "env \<Rightarrow> Operator \<Rightarrow> string \<Rightarrow> string \<Rightarrow> journal \<Rightarrow> unit result \<times> journal" where
  "waitCSVReady env opr nm ns t =
     (case PollUntilContextTimeout env (interval opr) (timeout opr)
             (csvReadyCondition env nm ns) () t of
        (Some e, a, t') \<Rightarrow>
          (Err (ErrorString (''timeout waiting for csv '' @ nm @ '' to be ready, error: '' @ Error e)), t')
      | (None, a, t') \<Rightarrow> (Ok (), t'))"

paragraph \<open>\<open>InstallSubscription\<close>\<close>

text \<open>\<^verbatim>\<open>installPlan.Object["spec"].(map[string]interface{})["approved"] = true\<close>: the type
  assertion panics when \<open>spec\<close> is missing or is not a map, and the message names the dynamic
  type that was found.\<close>

fun typeName :: "json \<Rightarrow> string" where
  "typeName JNull = ''nil''"
| "typeName (JBool b) = ''bool''"
| "typeName (JString s) = ''string''"
| "typeName (JMap m) = ''map[string]interface {}''"
| "typeName (JSlice xs) = ''[]interface {}''"

definition approve :: "json \<Rightarrow> string + json" where
  "approve installPlan =
     (case installPlan of
        JMap m \<Rightarrow>
          (case map_of m ''spec'' of
             Some (JMap spec) \<Rightarrow>
               Inr (JMap (setKey m ''spec'' (JMap (setKey spec ''approved'' (JBool True)))))
           | Some v \<Rightarrow>
               Inl (''interface conversion: interface {} is '' @ typeName v @
                    '', not map[string]interface {}'')
           | None \<Rightarrow>
               Inl ''interface conversion: interface {} is nil, not map[string]interface {}'')
      | _ \<Rightarrow> Inl ''interface conversion: interface {} is nil, not map[string]interface {}'')"

definition InstallSubscription ::
  "env \<Rightarrow> Operator \<Rightarrow> string \<Rightarrow> string \<Rightarrow> journal \<Rightarrow> unit result \<times> journal" where
  "InstallSubscription env opr csv channel t =
     (if csv = '''' then (Err (ErrorString ''csv is empty''), t)
      else
        check (deleteResource env opr subscriptionGVR (name opr) (namespace opr) t)
          ''failed to delete old subscription: '' (\<lambda>u t1.
        check (deleteResource env opr csvGVR csv (namespace opr) t1)
          ''failed to delete old csv: '' (\<lambda>u t2.
        check (createSubscription env (name opr) (namespace opr) csv channel t2)
          ''failed to create subscription: '' (\<lambda>created t3.
        check (waitInstallPlan env opr (name opr) (namespace opr) t3)
          ''failed to wait for install plan: '' (\<lambda>installPlanName t4.
        check (invoke env (Get installPlanGVR (namespace opr) installPlanName) t4)
          ''failed to get install plan: '' (\<lambda>installPlan t5.
        case approve installPlan of
          Inl msg \<Rightarrow> (Panic msg, t5)
        | Inr approved \<Rightarrow>
        check (invoke env (Update installPlanGVR (namespace opr) approved) t5)
          ''failed to update install plan: '' (\<lambda>updated t6.
        check (waitCSVReady env opr csv (namespace opr) t6)
          ''failed to wait for csv to be ready: '' (\<lambda>u t7.
        (Ok (), t7)))))))))"

paragraph \<open>Artifact versions (artifact_versiong.go)\<close>

definition artifactVersionObject :: "string \<Rightarrow> string \<Rightarrow> string \<Rightarrow> json" where
  "artifactVersionObject avName artifactName version =
     JMap [(''apiVersion'', JString ''app.alauda.io/v1alpha1''),
           (''kind'', JString ''ArtifactVersion''),
           (''metadata'', JMap [(''name'', JString avName),
                                (''namespace'', JString systemNamespace),
                                (''annotations'', JMap [(''kubectl-artifact'', JString ''kubectl-artfact'')]),
                                (''labels'', JMap [(''cpaas.io/artifact-version'', JString artifactName),
                                                   (''cpaas.io/library'', JString ''platform'')])]),
           (''spec'', JMap [(''present'', JBool True),
                            (''tag'', JString version)])]"

definition ownerReference :: "json \<Rightarrow> json" where
  "ownerReference owner =
     JMap [(''apiVersion'', JString (GetAPIVersion owner)),
           (''kind'', JString (GetKind owner)),
           (''name'', JString (GetName owner)),
           (''uid'', JString (GetUID owner))]"

definition createArtifactVersion ::
  "env \<Rightarrow> Operator \<Rightarrow> string \<Rightarrow> json \<Rightarrow> journal \<Rightarrow> json result \<times> journal" where
  "createArtifactVersion env opr version artifactObj t =
     (let avName = GetName artifactObj @ ''.'' @ version in
      case GetResource env avName systemNamespace artifactVersionGVR t of
        (Ok av, t1) \<Rightarrow> (Ok av, t1)
      | (r, t1) \<Rightarrow>
          invoke env
            (Create artifactVersionGVR systemNamespace
               (SetOwnerReferences (artifactVersionObject avName (GetName artifactObj) version)
                  (ownerReference artifactObj)))
            t1)"

definition presentCondition ::
  "env \<Rightarrow> string \<Rightarrow> json \<Rightarrow> journal \<Rightarrow> (bool \<times> go_error option) \<times> json \<times> journal" where
  "presentCondition env nm lastResource t =
     (case invoke env (Get artifactVersionGVR systemNamespace nm) t of
        (Err e, t') \<Rightarrow> ((False, Some e), lastResource, t')
      | (Ok obj, t') \<Rightarrow>
          if phaseIs obj ''Present'' then ((True, None), obj, t')
          else ((False, None), lastResource, t')
      | (Panic p, t') \<Rightarrow> ((False, None), lastResource, t'))"

definition waitArtifactVersionPresent ::
  "env \<Rightarrow> Operator \<Rightarrow> string \<Rightarrow> journal \<Rightarrow> json result \<times> journal" where
  "waitArtifactVersionPresent env opr nm t =
     (case PollUntilContextTimeout env (interval opr) (timeout opr)
             (presentCondition env nm) (JMap []) t of
        (Some e, lastResource, t') \<Rightarrow> (Err e, t')
      | (None, lastResource, t') \<Rightarrow> (Ok lastResource, t'))"

definition entryMatches :: "string \<Rightarrow> json \<Rightarrow> bool" where
  "entryMatches csv entry =
     (case entry of
        JMap entryMap \<Rightarrow> Contains (fst (NestedString entry [''name''])) csv
      | _ \<Rightarrow> False)"

definition channelMatches :: "string \<Rightarrow> json \<Rightarrow> bool" where
  "channelMatches csv channel =
     (case channel of
        JMap channelMap \<Rightarrow> list_ex (entryMatches csv) (NestedSlice channel [''entries''])
      | _ \<Rightarrow> False)"

definition packageManifestCondition ::
  "env \<Rightarrow> Operator \<Rightarrow> string \<Rightarrow> unit \<Rightarrow> journal \<Rightarrow> (bool \<times> go_error option) \<times> unit \<times> journal" where
  "packageManifestCondition env opr csv a t =
     (case invoke env (Get packageManifestGVR systemNamespace (name opr)) t of
        (Err e, t') \<Rightarrow>
          if \<not> IsNotFound e then ((False, Some e), a, t') else ((False, None), a, t')
      | (Ok pm, t') \<Rightarrow>
          ((list_ex (channelMatches csv) (NestedSlice pm [''status'', ''channels'']), None), a, t')
      | (Panic p, t') \<Rightarrow> ((False, None), a, t'))"

definition waitPackageManifest ::
  "env \<Rightarrow> Operator \<Rightarrow> string \<Rightarrow> journal \<Rightarrow> unit result \<times> journal" where
  "waitPackageManifest env opr csv t =
     (case PollUntilContextTimeout env (interval opr) (timeout opr)
             (packageManifestCondition env opr csv) () t of
        (Some e, a, t') \<Rightarrow> (Err e, t')
      | (None, a, t') \<Rightarrow> (Ok (), t'))"

definition InstallArtifactVersion ::
  "env \<Rightarrow> Operator \<Rightarrow> string \<Rightarrow> journal \<Rightarrow> json result \<times> journal" where
  "InstallArtifactVersion env opr version t =
     check (GetResource env (artifact opr) systemNamespace artifactGVR t)
       ''failed to get artifact: '' (\<lambda>artifactObj t1.
     check (createArtifactVersion env opr version artifactObj t1)
       ''failed to create artifact version: '' (\<lambda>av t2.
     check (waitArtifactVersionPresent env opr (GetName av) t2)
       ''failed to wait for artifact version: '' (\<lambda>av' t3.
     case NestedString av' [''status'', ''version''] of
       (csv, found) \<Rightarrow>
         if \<not> found \<or> csv = ''''
         then (Err (ErrorString (''failed to get CSV version from artifact version '' @ GetName av' @
                      '': status.version field is empty or not found'')), t3)
         else
           check (waitPackageManifest env opr csv t3)
             ''failed to ensure package manifest: '' (\<lambda>u t4.
           (Ok av', t4)))))"

paragraph \<open>\<open>UpgradeOperator\<close> (operator.go)\<close>

definition UpgradeOperator ::
  "env \<Rightarrow> Operator \<Rightarrow> Version \<Rightarrow> journal \<Rightarrow> unit result \<times> journal" where
  "UpgradeOperator env opr version t =
     check (InstallArtifactVersion env opr (BundleVersion version) t)
       ''failed to prepare operator: '' (\<lambda>av t1.
     let csv = fst (NestedString av [''status'', ''version'']);
         channel = Channel version;
         channel = (if channel = '''' then ''stable'' else channel)
     in check (InstallSubscription env opr csv channel t1)
          ''failed to install subscription: '' (\<lambda>u t2.
        (Ok (), t2)))"

subsection \<open>Running a process (pkg/exec) and the local operator (pkg/operator/local)\<close>

text \<open>\<open>exec.RunCommand\<close>; of its result only the \<open>Err\<close> field is ever read.\<close>

definition RunCommand :: "env \<Rightarrow> Command \<Rightarrow> journal \<Rightarrow> go_error option \<times> journal" where
  "RunCommand env cmd t = (runProcess env t cmd, t @ [Run cmd (runProcess env t cmd)])"

record LocalOperator =
  workDir :: string
  command :: string

definition NewLocalOperator :: "OperatorConfig \<Rightarrow> LocalOperator" where
  "NewLocalOperator options = \<lparr>workDir = Workspace options, command = Command options\<rparr>"

definition runDeployCommand ::
  "env \<Rightarrow> LocalOperator \<Rightarrow> string \<Rightarrow> journal \<Rightarrow> unit result \<times> journal" where
  "runDeployCommand env lop version t =
     (case RunCommand env \<lparr>Command.Name = ''bash'', Args = [''-c'', command lop], Dir = workDir lop, Env = []\<rparr> t of
        (Some e, t1) \<Rightarrow> (Err (Errorf ''failed to run deploy command: '' e), t1)
      | (None, t1) \<Rightarrow> (Ok (), t1))"

text \<open>The method has a pointer receiver and fills in the default command; the operator is
  returned with the result.\<close>

definition LocalOperator_UpgradeOperator ::
  "env \<Rightarrow> LocalOperator \<Rightarrow> Version \<Rightarrow> journal \<Rightarrow> unit result \<times> LocalOperator \<times> journal" where
  "LocalOperator_UpgradeOperator env lop version t =
     (let lop1 = (if command lop = '''' then lop\<lparr>command := ''make deploy''\<rparr> else lop) in
      case check (runDeployCommand env lop1 (BundleVersion version) t)
             ''failed to run deploy command: '' (\<lambda>u t1. (Ok (), t1)) of
        (r, t1) \<Rightarrow> (r, lop1, t1))"

subsection \<open>The orchestrator (cmd/upgrade_command.go)\<close>

text \<open>The two implementations of \<open>OperatorInterface\<close>, the factory, and the dispatch of the
  interface's one method.\<close>

datatype OperatorInterface = OperatorHub Operator | Local LocalOperator

definition CreateOperator :: "env \<Rightarrow> string \<Rightarrow> OperatorConfig \<Rightarrow> go_error + OperatorInterface" where
  "CreateOperator env operatorType options =
     (if operatorType = ''local'' then Inr (Local (NewLocalOperator options))
      else (case NewOperator env options of
              Inl e \<Rightarrow> Inl e
            | Inr opr \<Rightarrow> Inr (OperatorHub opr)))"

fun OperatorInterface_UpgradeOperator ::
  "env \<Rightarrow> OperatorInterface \<Rightarrow> Version \<Rightarrow> journal \<Rightarrow> unit result \<times> OperatorInterface \<times> journal" where
  "OperatorInterface_UpgradeOperator env (OperatorHub opr) version t =
     (case UpgradeOperator env opr version t of (r, t1) \<Rightarrow> (r, OperatorHub opr, t1))"
| "OperatorInterface_UpgradeOperator env (Local lop) version t =
     (case LocalOperator_UpgradeOperator env lop version t of (r, lop1, t1) \<Rightarrow> (r, Local lop1, t1))"

definition execCommand :: "env \<Rightarrow> string \<Rightarrow> string \<Rightarrow> journal \<Rightarrow> unit result \<times> journal" where
  "execCommand env dir cmd t =
     (case RunCommand env \<lparr>Command.Name = ''bash'', Args = [''-c'', cmd], Dir = dir, Env = []\<rparr> t of
        (Some e, t1) \<Rightarrow> (Err (Errorf ''failed to execute upgrade test: '' e), t1)
      | (None, t1) \<Rightarrow> (Ok (), t1))"

text \<open>
  \<open>process\<close>: the loop \<^verbatim>\<open>for index, version := range path.Versions\<close>, with the index and the
  remaining versions as arguments.
\<close>

fun processVersions ::
  "env \<Rightarrow> Config \<Rightarrow> OperatorInterface \<Rightarrow> nat \<Rightarrow> Version list \<Rightarrow> journal
     \<Rightarrow> unit result \<times> OperatorInterface \<times> journal" where
  "processVersions env cfg oper index [] t = (Ok (), oper, t)"
| "processVersions env cfg oper index (version # rest) t =
     (case OperatorInterface_UpgradeOperator env oper version t of
        (Err e, oper1, t1) \<Rightarrow> (Err (Errorf ''failed to prepare operator: '' e), oper1, t1)
      | (Panic p, oper1, t1) \<Rightarrow> (Panic p, oper1, t1)
      | (Ok u, oper1, t1) \<Rightarrow>
          (let testCommand = ''REPO=allure make upgrade'';
               testCommand = (if index = 0 then ''REPO=allure make prepare'' else testCommand);
               testCommand = (if TestCommand version \<noteq> '''' then TestCommand version
                              else testCommand);
               dir = Workspace (OperatorConfig cfg);
               dir = (if TestSubPath version \<noteq> ''''
                      then Workspace (OperatorConfig cfg) @ ''/'' @ TestSubPath version
                      else dir)
           in case execCommand env dir testCommand t1 of
                (Err e, t2) \<Rightarrow> (Err (Errorf ''failed to execute test command: '' e), oper1, t2)
              | (Panic p, t2) \<Rightarrow> (Panic p, oper1, t2)
              | (Ok u, t2) \<Rightarrow> processVersions env cfg oper1 (index + 1) rest t2))"

definition process ::
  "env \<Rightarrow> Config \<Rightarrow> OperatorInterface \<Rightarrow> UpgradePath \<Rightarrow> journal
     \<Rightarrow> unit result \<times> OperatorInterface \<times> journal" where
  "process env cfg oper path t = processVersions env cfg oper 0 (Versions path) t"

text \<open>
  The loop over the upgrade paths at the end of \<open>Execute\<close>. When \<open>Immediate\<close> is not set, the
  error of a path is logged and the loop goes on; after the last path the function returns
  nil.
\<close>

fun processPaths ::
  "env \<Rightarrow> Config \<Rightarrow> OperatorInterface \<Rightarrow> UpgradePath list \<Rightarrow> journal
     \<Rightarrow> unit result \<times> OperatorInterface \<times> journal" where
  "processPaths env cfg oper [] t = (Ok (), oper, t)"
| "processPaths env cfg oper (path # rest) t =
     (case process env cfg oper path t of
        (Err e, oper1, t1) \<Rightarrow>
          if \<not> Immediate cfg
          then processPaths env cfg oper1 rest
                 (t1 @ [LogError ''failed to process upgrade path'' (UpgradePath.Name path) e])
          else (Err (ErrorString (''failed to process upgrade path: '' @ UpgradePath.Name path @
                       '', error: '' @ Error e)), oper1, t1)
      | (Panic p, oper1, t1) \<Rightarrow> (Panic p, oper1, t1)
      | (Ok u, oper1, t1) \<Rightarrow> processPaths env cfg oper1 rest t1)"

text \<open>\<open>defaultConfig\<close> and \<open>LoadConfig\<close> (pkg/config): reading and parsing the file is the
  environment's, the defaults are the program's.\<close>

definition defaultConfig :: "Config \<Rightarrow> Config" where
  "defaultConfig config =
     (let oc = OperatorConfig config;
          oc = (if Workspace oc = '''' then oc\<lparr>Workspace := ''./''\<rparr> else oc);
          oc = (if Type oc = '''' then oc\<lparr>Type := ''operatorhub''\<rparr> else oc);
          oc = (if ArtifactPrefix oc = '''' then oc\<lparr>ArtifactPrefix := ''operatorhub''\<rparr> else oc);
          oc = (if Interval oc = 0 then oc\<lparr>Interval := 5 * Second\<rparr> else oc);
          oc = (if Timeout oc = 0 then oc\<lparr>Timeout := 10 * 60 * Second\<rparr> else oc)
      in config\<lparr>OperatorConfig := oc\<rparr>)"

definition LoadConfig :: "env \<Rightarrow> string \<Rightarrow> go_error + Config" where
  "LoadConfig env path =
     (case readConfig env path of
        Inl e \<Rightarrow> Inl e
      | Inr config \<Rightarrow> Inr (defaultConfig config))"

text \<open>The flags of the command, and \<open>Execute\<close>. The logger it builds and the Kubernetes
  configuration it loads matter only through their errors.\<close>

record UpgradeCommand =
  configFile :: string
  kubeconfig :: string
  logLevel :: string
  workspace :: string

definition newLogger :: "env \<Rightarrow> string \<Rightarrow> go_error option" where
  "newLogger env level =
     (case UnmarshalText env level of
        Some e \<Rightarrow> Some (Errorf ''invalid log level: '' e)
      | None \<Rightarrow> None)"

definition Execute :: "env \<Rightarrow> UpgradeCommand \<Rightarrow> journal \<Rightarrow> unit result \<times> journal" where
  "Execute env uc t =
     (let kubeconfigPath = getKubeconfig env (kubeconfig uc) in
      case LoadConfig env (configFile uc) of
        Inl e \<Rightarrow> (Err (Errorf ''failed to load config: '' e), t)
      | Inr loaded \<Rightarrow>
          (let cfg = (if workspace uc \<noteq> ''''
                      then loaded\<lparr>OperatorConfig := (OperatorConfig loaded)\<lparr>Workspace := workspace uc\<rparr>\<rparr>
                      else loaded)
           in case newLogger env (LogLevel cfg) of
                Some e \<Rightarrow> (Err (Errorf ''failed to create logger: '' e), t)
              | None \<Rightarrow>
                  (case loadKubeConfig env kubeconfigPath of
                     Some e \<Rightarrow> (Err (Errorf ''failed to load kubernetes config: '' e), t)
                   | None \<Rightarrow>
                       (case CreateOperator env (Type (OperatorConfig cfg)) (OperatorConfig cfg) of
                          Inl e \<Rightarrow> (Err (Errorf ''failed to create operator manager: '' e), t)
                        | Inr oper \<Rightarrow>
                            (case processPaths env cfg oper (UpgradePaths cfg) t of
                               (r, oper1, t1) \<Rightarrow> (r, t1))))))"

subsection \<open>Vocabulary for the statements about journals\<close>

text \<open>The journal \<open>t'\<close> continues \<open>t\<close>, and every entry that was added satisfies \<open>P\<close>.\<close>

definition extends_with :: "(event \<Rightarrow> bool) \<Rightarrow> journal \<Rightarrow> journal \<Rightarrow> bool" where
  "extends_with P t t' = (\<exists>ext. t' = t @ ext \<and> list_all P ext)"

fun isSubscriptionCreate :: "event \<Rightarrow> bool" where
  "isSubscriptionCreate (Call (Create gvr ns obj) r) = (gvr = subscriptionGVR)"
| "isSubscriptionCreate ev = False"

fun isTick :: "event \<Rightarrow> bool" where
  "isTick (Tick d) = True"
| "isTick ev = False"

text \<open>An entry of a poll that waits for a resource to go away: an interval passes, or a
  \<open>Get\<close> of the resource still finds it.\<close>

fun stillThere :: "GroupVersionResource \<Rightarrow> string \<Rightarrow> string \<Rightarrow> event \<Rightarrow> bool" where
  "stillThere gvr ns nm (Tick d) = True"
| "stillThere gvr ns nm (Call c r) = (c = Get gvr ns nm \<and> (case r of Inr obj \<Rightarrow> True | Inl e \<Rightarrow> False))"
| "stillThere gvr ns nm ev = False"

text \<open>\<open>P\<close> holds of every entry that is not the creation of a Subscription.\<close>

definition quiet :: "(event \<Rightarrow> bool) \<Rightarrow> bool" where
  "quiet P = (\<forall>ev. isSubscriptionCreate ev \<or> P ev)"

text \<open>If the entry creates a Subscription, the object's \<open>spec.channel\<close> is \<open>ch\<close>.\<close>

fun channelIs :: "string \<Rightarrow> event \<Rightarrow> bool" where
  "channelIs ch (Call (Create gvr ns obj) r) =
     (gvr \<noteq> subscriptionGVR \<or> NestedString obj [''spec'', ''channel''] = (ch, True))"
| "channelIs ch ev = True"

subsection \<open>Example environments\<close>

text \<open>
  A cluster on which nothing exists yet: every \<open>Get\<close> and every \<open>Delete\<close> answers not-found,
  every \<open>Create\<close> and \<open>Update\<close> returns the object it was given, except that the first \<open>k\<close>
  attempts to create a Subscription fail. Polls give up after one interval, and the
  configuration file is missing.
\<close>

definition flakyCluster :: "nat \<Rightarrow> env" where
  "flakyCluster k =
     \<lparr>respond = (\<lambda>t c. case c of
          Create gvr ns obj \<Rightarrow>
            if gvr = subscriptionGVR \<and> length (filter isSubscriptionCreate t) < k
            then Inl (StatusError OtherReason ''try again'') else Inr obj
        | Update gvr ns obj \<Rightarrow> Inr obj
        | Get gvr ns nm \<Rightarrow> Inl (StatusError NotFound ''not found'')
        | Delete gvr ns nm \<Rightarrow> Inl (StatusError NotFound ''not found'')),
      ticks = (\<lambda>t iv tmo. 1),
      runProcess = (\<lambda>t cmd. None),
      readConfig = (\<lambda>path. Inl (ErrorString ''no such file'')),
      UnmarshalText = (\<lambda>level. None),
      getKubeconfig = (\<lambda>flag. flag),
      loadKubeConfig = (\<lambda>path. None),
      NewForConfig = None\<rparr>"

definition demoOperator :: Operator where
  "demoOperator =
     \<lparr>namespace = ''ns'', name = ''op'', artifact = ''operatorhub-op'',
      timeout = 10 * 60 * Second, interval = 5 * Second\<rparr>"

definition demoNs :: event where
  "demoNs = Call (Create namespaceGVR '''' (namespaceObject ''ns'')) (Inr (namespaceObject ''ns''))"

definition demoCreate :: call where
  "demoCreate = Create subscriptionGVR ''ns'' (subscriptionObject ''op'' ''ns'' ''op.v1'' ''stable'')"

definition tryAgain :: response where
  "tryAgain = Inl (StatusError OtherReason ''try again'')"

definition created :: response where
  "created = Inr (subscriptionObject ''op'' ''ns'' ''op.v1'' ''stable'')"

definition notFound :: response where
  "notFound = Inl (StatusError NotFound ''not found'')"

text \<open>
  A cluster in the middle of an upgrade. The Artifact, the ArtifactVersion (already
  \<open>Present\<close>, offering \<open>op.v1\<close>), the package manifest and an install plan exist. A
  Subscription of an earlier installation is still there: its deletion is accepted, the
  first \<open>Get\<close> after it still finds the object, and it is gone once an interval has passed.
  A newly created Subscription shows its install plan at once, and the CSV is there and
  \<open>Succeeded\<close> as soon as the plan has been updated.
\<close>

fun isUpdate :: "event \<Rightarrow> bool" where
  "isUpdate (Call (Update gvr ns obj) r) = True"
| "isUpdate ev = False"

definition demoArtifact :: json where
  "demoArtifact =
     JMap [(''apiVersion'', JString ''app.alauda.io/v1alpha1''),
           (''kind'', JString ''Artifact''),
           (''metadata'', JMap [(''name'', JString ''operatorhub-op''), (''uid'', JString ''u1'')])]"

definition demoArtifactVersion :: json where
  "demoArtifactVersion =
     JMap [(''metadata'', JMap [(''name'', JString ''operatorhub-op.v1'')]),
           (''status'', JMap [(''phase'', JString ''Present''), (''version'', JString ''op.v1'')])]"

definition demoPackageManifest :: json where
  "demoPackageManifest =
     JMap [(''status'', JMap [(''channels'',
        JSlice [JMap [(''entries'', JSlice [JMap [(''name'', JString ''op.v1'')]])]])])]"

definition demoInstallPlan :: json where
  "demoInstallPlan = JMap [(''spec'', JMap [(''approved'', JBool False)])]"

definition staleSubscription :: json where
  "staleSubscription = JMap [(''metadata'', JMap [(''name'', JString ''op'')])]"

definition newSubscription :: json where
  "newSubscription = JMap [(''status'', JMap [(''installplan'', JMap [(''name'', JString ''install-1'')])])]"

definition demoCSV :: json where
  "demoCSV = JMap [(''status'', JMap [(''phase'', JString ''Succeeded'')])]"

definition upgradeCluster :: env where
  "upgradeCluster =
     \<lparr>respond = (\<lambda>t c. case c of
          Get gvr ns nm \<Rightarrow>
            if gvr = artifactGVR then Inr demoArtifact
            else if gvr = artifactVersionGVR then Inr demoArtifactVersion
            else if gvr = packageManifestGVR then Inr demoPackageManifest
            else if gvr = installPlanGVR then Inr demoInstallPlan
            else if gvr = subscriptionGVR then
              (if list_ex isSubscriptionCreate t then Inr newSubscription
               else if list_ex isTick t then notFound
               else Inr staleSubscription)
            else if gvr = csvGVR then (if list_ex isUpdate t then Inr demoCSV else notFound)
            else notFound
        | Delete gvr ns nm \<Rightarrow> if gvr = subscriptionGVR then Inr staleSubscription else notFound
        | Create gvr ns obj \<Rightarrow> Inr obj
        | Update gvr ns obj \<Rightarrow> Inr obj),
      ticks = (\<lambda>t iv tmo. 1),
      runProcess = (\<lambda>t cmd. None),
      readConfig = (\<lambda>path. Inl (ErrorString ''no such file'')),
      UnmarshalText = (\<lambda>level. None),
      getKubeconfig = (\<lambda>flag. flag),
      loadKubeConfig = (\<lambda>path. None),
      NewForConfig = None\<rparr>"

definition demoVersion :: Version where
  "demoVersion =
     \<lparr>Version.Name = ''first'', BundleVersion = ''v1'', TestCommand = '''', TestSubPath = '''',
      Channel = ''''\<rparr>"

text \<open>
  What \<open>deleteResource\<close> leaves in the journal when it has confirmed a deletion: the \<open>Delete\<close>
  call, then entries of a poll that still finds the resource, then a \<open>Get\<close> that answers
  not-found; no more than \<open>bound\<close> intervals have passed.
\<close>

fun goneNow :: "GroupVersionResource \<Rightarrow> string \<Rightarrow> string \<Rightarrow> event \<Rightarrow> bool" where
  "goneNow gvr ns nm (Call c r) =
     (c = Get gvr ns nm \<and> (case r of Inl e \<Rightarrow> IsNotFound e | Inr obj \<Rightarrow> False))"
| "goneNow gvr ns nm ev = False"

definition confirmedGone ::
  "GroupVersionResource \<Rightarrow> string \<Rightarrow> string \<Rightarrow> nat \<Rightarrow> journal \<Rightarrow> bool" where
  "confirmedGone gvr ns nm bound ext =
     (case ext of
        Call c d # rest \<Rightarrow>
          c = Delete gvr ns nm \<and> rest \<noteq> [] \<and>
          list_all (stillThere gvr ns nm) (butlast rest) \<and>
          goneNow gvr ns nm (last rest) \<and>
          length (filter isTick rest) \<le> bound
      | _ \<Rightarrow> False)"

text \<open>The journal of \<open>InstallSubscription\<close> on the cluster in the middle of an upgrade.\<close>

definition upgradeJournal :: journal where
  "upgradeJournal =
     [Call (Delete subscriptionGVR ''ns'' ''op'') (Inr staleSubscription),
      Call (Get subscriptionGVR ''ns'' ''op'') (Inr staleSubscription),
      Tick (5 * Second),
      Call (Get subscriptionGVR ''ns'' ''op'') notFound,
      Call (Delete csvGVR ''ns'' ''op.v1'') notFound,
      Call (Get csvGVR ''ns'' ''op.v1'') notFound,
      demoNs,
      Call demoCreate created,
      Call (Get subscriptionGVR ''ns'' ''op'') (Inr newSubscription),
      Call (Get installPlanGVR ''ns'' ''install-1'') (Inr demoInstallPlan),
      Call (Update installPlanGVR ''ns'' (JMap [(''spec'', JMap [(''approved'', JBool True)])]))
        (Inr (JMap [(''spec'', JMap [(''approved'', JBool True)])])),
      Call (Get csvGVR ''ns'' ''op.v1'') (Inr demoCSV)]"

text \<open>What \<open>InstallArtifactVersion\<close> adds before that, on the same cluster.\<close>

definition prepareJournal :: journal where
  "prepareJournal =
     [Call (Get artifactGVR systemNamespace ''operatorhub-op'') (Inr demoArtifact),
      Call (Get artifactVersionGVR systemNamespace ''operatorhub-op.v1'') (Inr demoArtifactVersion),
      Call (Get artifactVersionGVR systemNamespace ''operatorhub-op.v1'') (Inr demoArtifactVersion),
      Call (Get packageManifestGVR systemNamespace ''op'') (Inr demoPackageManifest)]"

text \<open>The same upgrade for a version that names its channel: only the Subscription that
  is created differs.\<close>

definition alphaVersion :: Version where
  "alphaVersion =
     \<lparr>Version.Name = ''first'', BundleVersion = ''v1'', TestCommand = '''', TestSubPath = '''',
      Channel = ''alpha''\<rparr>"

definition alphaCreate :: call where
  "alphaCreate = Create subscriptionGVR ''ns'' (subscriptionObject ''op'' ''ns'' ''op.v1'' ''alpha'')"

definition alphaCreated :: response where
  "alphaCreated = Inr (subscriptionObject ''op'' ''ns'' ''op.v1'' ''alpha'')"

definition alphaJournal :: journal where
  "alphaJournal = take 7 upgradeJournal @ Call alphaCreate alphaCreated # drop 8 upgradeJournal"

text \<open>
  A run with the local operator. The configuration has two upgrade paths; the first has three
  versions, of which only the last names its own test command. On \<open>failingHost\<close> every
  process exits with an error; on \<open>flakyCluster\<close> every process succeeds.
\<close>

definition demoSecond :: Version where
  "demoSecond =
     \<lparr>Version.Name = ''second'', BundleVersion = ''v2'', TestCommand = '''', TestSubPath = '''',
      Channel = ''''\<rparr>"

definition demoThird :: Version where
  "demoThird =
     \<lparr>Version.Name = ''third'', BundleVersion = ''v3'', TestCommand = ''make e2e'',
      TestSubPath = ''testing'', Channel = ''''\<rparr>"

definition demoPath :: UpgradePath where
  "demoPath = \<lparr>UpgradePath.Name = ''v1-to-v3'', Versions = [demoVersion, demoSecond, demoThird]\<rparr>"

definition otherPath :: UpgradePath where
  "otherPath = \<lparr>UpgradePath.Name = ''v2-only'', Versions = [demoVersion]\<rparr>"

definition demoConfig :: "bool \<Rightarrow> Config" where
  "demoConfig immediate =
     \<lparr>UpgradePaths = [demoPath, otherPath],
      Immediate = immediate,
      LogLevel = ''info'',
      OperatorConfig =
        \<lparr>Type = ''local'', Artifact = '''', Namespace = ''ns'', OperatorConfig.Name = ''op'',
         Workspace = ''./'', ArtifactPrefix = ''operatorhub'', Interval = 5 * Second,
         Timeout = 10 * 60 * Second, Command = ''make deploy''\<rparr>\<rparr>"

definition demoLocal :: OperatorInterface where
  "demoLocal = Local \<lparr>workDir = ''./'', command = ''make deploy''\<rparr>"

definition exitStatus :: go_error where
  "exitStatus = ErrorString ''exit status 1''"

definition failingHost :: env where
  "failingHost =
     \<lparr>respond = (\<lambda>t c. notFound),
      ticks = (\<lambda>t iv tmo. 1),
      runProcess = (\<lambda>t cmd. Some exitStatus),
      readConfig = (\<lambda>path. Inr (demoConfig False)),
      UnmarshalText = (\<lambda>level. None),
      getKubeconfig = (\<lambda>flag. flag),
      loadKubeConfig = (\<lambda>path. None),
      NewForConfig = None\<rparr>"

definition demoCommand :: UpgradeCommand where
  "demoCommand = \<lparr>configFile = ''config.yaml'', kubeconfig = '''', logLevel = ''info'', workspace = ''''\<rparr>"

definition deploy :: Command where
  "deploy = \<lparr>Command.Name = ''bash'', Args = [''-c'', ''make deploy''], Dir = ''./'', Env = []\<rparr>"

definition deployError :: go_error where
  "deployError =
     ErrorString ''failed to prepare operator: failed to run deploy command: failed to run deploy command: exit status 1''"

definition badLevelHost :: env where
  "badLevelHost = failingHost\<lparr>UnmarshalText := (\<lambda>level. Some (ErrorString ''unrecognized level''))\<rparr>"

text \<open>The test commands of the three versions of \<open>demoPath\<close>, and the journal of the path on
  a host where every process succeeds.\<close>

definition test :: "string \<Rightarrow> string \<Rightarrow> Command" where
  "test cmd dir = \<lparr>Command.Name = ''bash'', Args = [''-c'', cmd], Dir = dir, Env = []\<rparr>"

definition demoRun :: journal where
  "demoRun =
     [Run deploy None, Run (test ''REPO=allure make prepare'' ''./'') None,
      Run deploy None, Run (test ''REPO=allure make upgrade'' ''./'') None,
      Run deploy None, Run (test ''make e2e'' ''.//testing'') None]"

section \<open>Properties of \<open>sanitizePath\<close>\<close>

lemma Split_nonempty: "Split s sep \<noteq> []"
  by (induction s) (auto split: list.splits)

lemma Split_no_sep: "p \<in> set (Split s sep) \<Longrightarrow> sep \<notin> set p"
proof (induction s arbitrary: p)
  case Nil
  then show ?case by simp
next
  case (Cons c cs)
  obtain q qs where q: "Split cs sep = q # qs"
    using Split_nonempty [of cs sep] by (cases "Split cs sep") auto
  show ?case
  proof (cases "c = sep")
    case True
    with Cons show ?thesis by auto
  next
    case False
    with Cons.prems q have "p = c # q \<or> p \<in> set qs" by auto
    with Cons.IH q False show ?thesis by auto
  qed
qed

lemma Join_Split: "Join (Split s sep) sep = s"
proof (induction s)
  case Nil
  then show ?case by simp
next
  case (Cons c cs)
  obtain q qs where q: "Split cs sep = q # qs"
    using Split_nonempty [of cs sep] by (cases "Split cs sep") auto
  with Cons show ?case by (cases qs) auto
qed

lemma Split_Join:
  "ps \<noteq> [] \<Longrightarrow> (\<And>p. p \<in> set ps \<Longrightarrow> sep \<notin> set p) \<Longrightarrow> Split (Join ps sep) sep = ps"
proof (induction ps sep rule: Join.induct)
  case (1 sep)
  then show ?case by simp
next
  case (2 p sep)
  then have "sep \<notin> set p" by simp
  then show ?case by (induction p) auto
next
  case (3 p q ps sep)
  have IH: "Split (Join (q # ps) sep) sep = q # ps"
    using 3 by simp
  have "sep \<notin> set p" using 3 by simp
  then show ?case using IH by (induction p) auto
qed

lemma set_collapse: "set (collapseUnderscores s) = set s"
  by (induction s rule: collapseUnderscores.induct) auto

lemma sanitizeRune_idem: "sanitizeRune (sanitizeRune r) = sanitizeRune r"
  by (simp add: sanitizeRune_def)

lemma sanitizeRune_not_sep: "sanitizeRune r \<noteq> PathSeparator"
  by (auto simp: sanitizeRune_def between_def PathSeparator_def)

lemma sanitizeRune_charset: "in_charset (sanitizeRune r)"
  by (auto simp: sanitizeRune_def in_charset_def alnum_def)


lemma collapse_hd: "collapseUnderscores (c # cs) \<noteq> [] \<and> hd (collapseUnderscores (c # cs)) = c"
  by (induction cs arbitrary: c) auto

lemma collapse_idem: "collapseUnderscores (collapseUnderscores s) = collapseUnderscores s"
proof (induction s rule: collapseUnderscores.induct)
  case (3 c d cs)
  obtain e es where e: "collapseUnderscores (d # cs) = e # es"
    using collapse_hd [of d cs] by (cases "collapseUnderscores (d # cs)") auto
  then have "e = d" using collapse_hd [of d cs] by simp
  with 3 e show ?case by auto
qed simp_all


lemma map_collapse: "map f (collapseUnderscores s) = collapseUnderscores s" if "\<And>c. c \<in> set s \<Longrightarrow> f c = c"
proof -
  have "\<And>c. c \<in> set (collapseUnderscores s) \<Longrightarrow> f c = c"
    using that by (simp add: set_collapse)
  then show ?thesis by (simp add: map_idI)
qed

lemma sanitizePart_idem: "sanitizePart (sanitizePart p) = sanitizePart p"
proof -
  have "map sanitizeRune (collapseUnderscores (map sanitizeRune p)) = collapseUnderscores (map sanitizeRune p)"
    by (rule map_collapse) (auto simp: sanitizeRune_idem)
  then show ?thesis by (simp add: sanitizePart_def collapse_idem)
qed

lemma sanitizePart_no_sep: "PathSeparator \<notin> set (sanitizePart p)"
proof
  assume "PathSeparator \<in> set (sanitizePart p)"
  then obtain r where "PathSeparator = sanitizeRune r"
    by (auto simp: sanitizePart_def set_collapse)
  then show False using sanitizeRune_not_sep [of r] by simp
qed

lemma sanitizePath_idem: "sanitizePath (sanitizePath x) = sanitizePath x"
proof -
  let ?ps = "map sanitizePart (Split x PathSeparator)"
  have "Split (Join ?ps PathSeparator) PathSeparator = ?ps"
    by (rule Split_Join) (auto simp: Split_nonempty sanitizePart_no_sep)
  then show ?thesis
    by (simp add: sanitizePath_def sanitizePart_idem comp_def)
qed

lemma set_Join: "set (Join ps sep) \<subseteq> insert sep (\<Union> (set ` set ps))"
  by (induction ps sep rule: Join.induct) auto

lemma no_double_collapse: "collapseUnderscores s \<noteq> u @ ''__'' @ v"
proof (induction s arbitrary: u rule: collapseUnderscores.induct)
  case 1
  then show ?case by simp
next
  case (2 c)
  then show ?case by (cases u) auto
next
  case (3 c d cs)
  obtain es where e: "collapseUnderscores (d # cs) = d # es"
    using collapse_hd [of d cs] by (cases "collapseUnderscores (d # cs)") auto
  show ?case
  proof (cases "c = CHR ''_'' \<and> d = CHR ''_''")
    case True
    with 3 show ?thesis by simp
  next
    case False
    have IH: "collapseUnderscores (d # cs) \<noteq> w @ ''__'' @ v" for w
      using 3 False by blast
    show ?thesis
    proof (cases u)
      case Nil
      with False e show ?thesis by auto
    next
      case (Cons a u')
      with False IH [of u'] show ?thesis by auto
    qed
  qed
qed


lemma has_double_Cons: "has_double_underscore s \<Longrightarrow> has_double_underscore (a # s)"
  by (cases s) auto

lemma has_double_append: "has_double_underscore (u @ ''__'' @ v)"
  by (induction u) (auto intro: has_double_Cons)

lemma has_double_iff:
  "has_double_underscore s = (\<exists>u v. s = u @ ''__'' @ v)"
proof
  show "has_double_underscore s \<Longrightarrow> \<exists>u v. s = u @ ''__'' @ v"
  proof (induction s rule: has_double_underscore.induct)
    case (1 c d cs)
    show ?case
    proof (cases "c = CHR ''_'' \<and> d = CHR ''_''")
      case True
      then have "c # d # cs = [] @ ''__'' @ cs" by simp
      then show ?thesis by blast
    next
      case False
      with 1 obtain u v where "d # cs = u @ ''__'' @ v" by auto
      then have "c # d # cs = (c # u) @ ''__'' @ v" by simp
      then show ?thesis by blast
    qed
  qed simp_all
next
  assume "\<exists>u v. s = u @ ''__'' @ v"
  then obtain u v where "s = u @ ''__'' @ v" by blast
  then show "has_double_underscore s" by (simp only: has_double_append)
qed

lemma double_across_sep:
  assumes "p @ sep # r = u @ ''__'' @ v" and "sep \<noteq> CHR ''_''"
  shows "has_double_underscore p \<or> has_double_underscore r"
  using assms
proof (induction p arbitrary: u)
  case Nil
  then show ?case by (cases u) (auto simp: has_double_iff)
next
  case (Cons c p)
  show ?case
  proof (cases u)
    case Nil
    with Cons.prems have "c = CHR ''_''" and "p @ sep # r = CHR ''_'' # v" by auto
    with Cons.prems(2) obtain p' where "p = CHR ''_'' # p'" by (cases p) auto
    with \<open>c = CHR ''_''\<close> have "c # p = [] @ ''__'' @ p'" by simp
    then show ?thesis unfolding has_double_iff by blast
  next
    case (Cons a u')
    with Cons.prems have "p @ sep # r = u' @ ''__'' @ v" by simp
    from Cons.IH [OF this Cons.prems(2)] show ?thesis
    proof
      assume "has_double_underscore p"
      then obtain x y where "p = x @ ''__'' @ y" unfolding has_double_iff by blast
      then have "c # p = (c # x) @ ''__'' @ y" by simp
      then show ?thesis unfolding has_double_iff by blast
    qed simp
  qed
qed

lemma double_in_Join:
  "has_double_underscore (Join ps sep) \<Longrightarrow> sep \<noteq> CHR ''_'' \<Longrightarrow> \<exists>p\<in>set ps. has_double_underscore p"
proof (induction ps sep rule: Join.induct)
  case (1 sep)
  then show ?case by (simp add: has_double_iff)
next
  case (2 p sep)
  then show ?case by simp
next
  case (3 p q ps sep)
  from 3(2) obtain u v where "p @ sep # Join (q # ps) sep = u @ ''__'' @ v"
    unfolding has_double_iff by auto
  from double_across_sep [OF this 3(3)] 3(1) 3(3) show ?case by auto
qed

lemma sanitizePath_no_double: "\<not> has_double_underscore (sanitizePath x)"
proof
  assume "has_double_underscore (sanitizePath x)"
  then obtain p where "has_double_underscore (sanitizePart p)"
    using double_in_Join [of "map sanitizePart (Split x PathSeparator)" PathSeparator]
    by (auto simp: sanitizePath_def PathSeparator_def)
  then show False
    using no_double_collapse by (auto simp: has_double_iff sanitizePart_def)
qed

lemma collapse_at:
  "c \<noteq> CHR ''_'' \<Longrightarrow>
     collapseUnderscores (p @ c # r) = collapseUnderscores p @ c # collapseUnderscores r"
proof (induction p rule: collapseUnderscores.induct)
  case 1
  then show ?case by (cases r) auto
next
  case (2 a)
  then show ?case by (cases r) auto
next
  case (3 a b p)
  then show ?case by auto
qed

lemma Join_collapse:
  "sep \<noteq> CHR ''_'' \<Longrightarrow>
     Join (map collapseUnderscores ps) sep = collapseUnderscores (Join ps sep)"
  by (induction ps sep rule: Join.induct) (auto simp: collapse_at)

lemma Join_map:
  assumes "\<And>p. p \<in> set ps \<Longrightarrow> sep \<notin> set p" and "g sep = sep"
  shows "Join (map (map g) ps) sep = map g (Join ps sep)"
  using assms by (induction ps sep rule: Join.induct) auto

lemma sanitizePath_whole:
  "sanitizePath x =
     collapseUnderscores (map (\<lambda>c. if c = PathSeparator then c else sanitizeRune c) x)"
proof -
  let ?g = "\<lambda>c. if c = PathSeparator then c else sanitizeRune c"
  let ?ps = "Split x PathSeparator"
  have same: "map sanitizeRune p = map ?g p" if "p \<in> set ?ps" for p
    using Split_no_sep [OF that] by (auto intro: map_cong)
  have part: "sanitizePart p = collapseUnderscores (map ?g p)" if "p \<in> set ?ps" for p
    using same [OF that] by (simp only: sanitizePart_def)
  have "map sanitizePart ?ps = map (\<lambda>p. collapseUnderscores (map ?g p)) ?ps"
    by (rule map_cong [OF refl]) (rule part)
  then have m: "map sanitizePart ?ps = map collapseUnderscores (map (map ?g) ?ps)"
    by (simp add: comp_def)
  have "sanitizePath x = Join (map collapseUnderscores (map (map ?g) ?ps)) PathSeparator"
    by (simp only: sanitizePath_def m)
  also have "\<dots> = collapseUnderscores (Join (map (map ?g) ?ps) PathSeparator)"
    by (rule Join_collapse) (simp add: PathSeparator_def)
  also have "Join (map (map ?g) ?ps) PathSeparator = map ?g (Join ?ps PathSeparator)"
    by (rule Join_map) (auto simp: Split_no_sep)
  finally show ?thesis by (simp only: Join_Split)
qed

lemma retain_code:
  "c \<noteq> CHR ''-'' \<Longrightarrow> retain c = (if c = PathSeparator then c else sanitizeRune c)"
  by (auto simp: retain_def in_charset_def sanitizeRune_def alnum_def)

lemma sanitizePath_retain:
  assumes "CHR ''-'' \<notin> set x"
  shows "sanitizePath x = collapseUnderscores (map retain x)"
proof -
  have r: "retain c = (if c = PathSeparator then c else sanitizeRune c)" if "c \<in> set x" for c
    using that assms by (intro retain_code) auto
  have e: "map retain x = map (\<lambda>c. if c = PathSeparator then c else sanitizeRune c) x"
    by (rule map_cong [OF refl]) (rule r)
  show ?thesis unfolding sanitizePath_whole e ..
qed

lemma sanitizePath_chars: "c \<in> set (sanitizePath x) \<Longrightarrow> c = PathSeparator \<or> in_charset c"
proof -
  assume "c \<in> set (sanitizePath x)"
  then have "c = PathSeparator \<or> (\<exists>p. c \<in> set (sanitizePart p))"
    using set_Join [of "map sanitizePart (Split x PathSeparator)" PathSeparator]
    by (auto simp: sanitizePath_def)
  then show ?thesis
    using sanitizeRune_charset by (auto simp: sanitizePart_def set_collapse)
qed


text \<open>
  Claim C5, as amended. For every input, each character of the output of \<open>sanitizePath\<close> is
  the path separator or one of \<open>[0-9A-Za-z_.-]\<close>, and the output never has two underscores
  in a row. The separator splits the input into components and stays where it is. For an
  input without hyphens the output is the input in which every character that is neither
  the separator nor one of \<open>[0-9A-Za-z_.-]\<close> has been replaced by an underscore and every run
  of underscores has then been collapsed into one; alphanumerics, dots and single underscores
  are retained. On \<^verbatim>\<open>release/v17.8!\<close> the result is \<^verbatim>\<open>release/v17.8_\<close>.
\<close>

theorem sanitizePath_charset:
  "(\<forall>c\<in>set (sanitizePath x). c = PathSeparator \<or> in_charset c) \<and>
   \<not> has_double_underscore (sanitizePath x) \<and>
   (CHR ''-'' \<notin> set x \<longrightarrow> sanitizePath x = collapseUnderscores (map retain x)) \<and>
   sanitizePath ''release/v17.8!'' = ''release/v17.8_''"
proof -
  have "sanitizePath ''release/v17.8!'' = ''release/v17.8_''"
    by (simp add: sanitizePath_def sanitizePart_def sanitizeRune_def between_def PathSeparator_def)
  then show ?thesis
    using sanitizePath_chars [of _ x] sanitizePath_no_double [of x] sanitizePath_retain [of x]
    by blast
qed

theorem sanitizePath_charset_witness:
  "CHR ''/'' \<in> set (sanitizePath ''release/v17.8!'') \<and>
   CHR ''_'' \<in> set (sanitizePath ''release/v17.8!'') \<and>
   in_charset CHR ''_'' \<and>
   \<not> has_double_underscore (sanitizePath ''release/v17.8!'') \<and>
   CHR ''-'' \<notin> set ''release/v17.8!'' \<and>
   sanitizePath ''release/v17.8!'' = collapseUnderscores (map retain ''release/v17.8!'') \<and>
   collapseUnderscores (map retain ''release/v17.8!'') = ''release/v17.8_''"
proof -
  note t = sanitizePath_charset [of "''release/v17.8!''"]
  have e: "sanitizePath ''release/v17.8!'' = ''release/v17.8_''"
    using t by (elim conjE)
  have nd: "\<not> has_double_underscore (sanitizePath ''release/v17.8!'')"
    using t by (elim conjE)
  have h: "CHR ''-'' \<notin> set ''release/v17.8!''"
    by simp
  have r: "sanitizePath ''release/v17.8!'' = collapseUnderscores (map retain ''release/v17.8!'')"
    using t h by (elim conjE) (erule mp)
  have v: "collapseUnderscores (map retain ''release/v17.8!'') = ''release/v17.8_''"
    using r e by simp
  have m: "CHR ''/'' \<in> set (sanitizePath ''release/v17.8!'')" "CHR ''_'' \<in> set (sanitizePath ''release/v17.8!'')"
    by (simp_all add: e)
  have c: "in_charset CHR ''_''"
    by (simp add: in_charset_def)
  from m c nd h r v show ?thesis by (intro conjI)
qed

text \<open>
  Claim C5, as stated, fails on its own example: the separator of \<^verbatim>\<open>release/v17.8!\<close> is
  kept, and it is not one of \<open>[0-9A-Za-z_.-]\<close>.
\<close>

theorem sanitizePath_charset_counterexample:
  "\<not> (\<forall>c\<in>set (sanitizePath ''release/v17.8!''). in_charset c)"
proof -
  have "sanitizePath ''release/v17.8!'' = ''release/v17.8_''"
    by (simp add: sanitizePath_def sanitizePart_def sanitizeRune_def between_def PathSeparator_def)
  moreover have "\<not> in_charset CHR ''/''"
    by (simp add: in_charset_def alnum_def between_def)
  ultimately show ?thesis by simp
qed

text \<open>The hyphen, which the comments of the source list among the allowed characters, is
  replaced like any other character outside the tests.\<close>

lemma sanitizePath_hyphen: "sanitizePath ''rc-1'' = ''rc_1''"
  by (simp add: sanitizePath_def sanitizePart_def sanitizeRune_def between_def PathSeparator_def)

text \<open>
  Claim C6. \<open>sanitizePath\<close> is idempotent: sanitising a sanitised path changes nothing.
\<close>

theorem sanitizePath_idempotent: "sanitizePath (sanitizePath x) = sanitizePath x"
  by (rule sanitizePath_idem)

section \<open>Journals only grow\<close>

text \<open>Every function of the reconciler continues the journal it is given. The lemmas are
  stated for a property \<open>P\<close> of the added entries that can only fail on the creation of a
  Subscription; the functions that create one ask for \<open>P\<close> of that call.\<close>

lemma gvr_distinct [simp]:
  "namespaceGVR \<noteq> subscriptionGVR" "subscriptionGVR \<noteq> namespaceGVR"
  "artifactVersionGVR \<noteq> subscriptionGVR" "subscriptionGVR \<noteq> artifactVersionGVR"
  "csvGVR \<noteq> subscriptionGVR" "subscriptionGVR \<noteq> csvGVR"
  by (simp_all add: namespaceGVR_def subscriptionGVR_def artifactVersionGVR_def csvGVR_def)

lemma gvr_all_distinct [simp]:
  "artifactGVR \<noteq> artifactVersionGVR" "artifactGVR \<noteq> subscriptionGVR" "artifactGVR \<noteq> namespaceGVR"
  "artifactGVR \<noteq> installPlanGVR" "artifactGVR \<noteq> packageManifestGVR" "artifactGVR \<noteq> csvGVR"
  "artifactVersionGVR \<noteq> artifactGVR" "artifactVersionGVR \<noteq> namespaceGVR"
  "artifactVersionGVR \<noteq> installPlanGVR" "artifactVersionGVR \<noteq> packageManifestGVR"
  "artifactVersionGVR \<noteq> csvGVR"
  "subscriptionGVR \<noteq> artifactGVR" "subscriptionGVR \<noteq> installPlanGVR"
  "subscriptionGVR \<noteq> packageManifestGVR"
  "namespaceGVR \<noteq> artifactGVR" "namespaceGVR \<noteq> artifactVersionGVR"
  "namespaceGVR \<noteq> installPlanGVR" "namespaceGVR \<noteq> packageManifestGVR" "namespaceGVR \<noteq> csvGVR"
  "installPlanGVR \<noteq> artifactGVR" "installPlanGVR \<noteq> artifactVersionGVR"
  "installPlanGVR \<noteq> subscriptionGVR" "installPlanGVR \<noteq> namespaceGVR"
  "installPlanGVR \<noteq> packageManifestGVR" "installPlanGVR \<noteq> csvGVR"
  "packageManifestGVR \<noteq> artifactGVR" "packageManifestGVR \<noteq> artifactVersionGVR"
  "packageManifestGVR \<noteq> subscriptionGVR" "packageManifestGVR \<noteq> namespaceGVR"
  "packageManifestGVR \<noteq> installPlanGVR" "packageManifestGVR \<noteq> csvGVR"
  "csvGVR \<noteq> artifactGVR" "csvGVR \<noteq> artifactVersionGVR" "csvGVR \<noteq> namespaceGVR"
  "csvGVR \<noteq> installPlanGVR" "csvGVR \<noteq> packageManifestGVR"
  by (simp_all add: artifactGVR_def artifactVersionGVR_def subscriptionGVR_def namespaceGVR_def
        installPlanGVR_def packageManifestGVR_def csvGVR_def)

lemma extends_refl: "extends_with P t t"
  by (simp add: extends_with_def)

lemma extends_trans: "extends_with P t t1 \<Longrightarrow> extends_with P t1 t2 \<Longrightarrow> extends_with P t t2"
  by (auto simp: extends_with_def)

lemma extends_snoc: "P e \<Longrightarrow> extends_with P t (t @ [e])"
  by (simp add: extends_with_def)

lemma extends_step: "extends_with P t t1 \<Longrightarrow> P e \<Longrightarrow> extends_with P t (t1 @ [e])"
  by (auto simp: extends_with_def)

lemma extends_mono: "extends_with P t t' \<Longrightarrow> (\<And>e. P e \<Longrightarrow> Q e) \<Longrightarrow> extends_with Q t t'"
  by (auto simp: extends_with_def list_all_iff)

lemma quietD: "quiet P \<Longrightarrow> \<not> isSubscriptionCreate ev \<Longrightarrow> P ev"
  by (auto simp: quiet_def)

lemma invoke_extends:
  "invoke env c t = (r, t') \<Longrightarrow> (\<And>resp. P (Call c resp)) \<Longrightarrow> extends_with P t t'"
  by (auto simp: invoke_def extends_with_def split: sum.splits)

lemma invoke_quiet:
  "invoke env c t = (r, t') \<Longrightarrow> quiet P \<Longrightarrow> (\<And>resp. \<not> isSubscriptionCreate (Call c resp))
     \<Longrightarrow> extends_with P t t'"
  by (rule invoke_extends) (auto dest: quietD)

lemma pollLoop_extends:
  assumes cond: "\<And>a t r a' t'. condition a t = (r, a', t') \<Longrightarrow> extends_with P t t'"
      and tick: "P (Tick iv)"
  shows "pollLoop condition iv n a t = (err, a', t') \<Longrightarrow> extends_with P t t'"
proof (induction n arbitrary: a t)
  case 0
  then show ?case by (simp add: extends_refl)
next
  case (Suc n)
  obtain d e a1 t1 where c: "condition a (t @ [Tick iv]) = ((d, e), a1, t1)"
    by (metis prod.exhaust)
  have e1: "extends_with P t t1"
    using extends_trans [OF extends_snoc [of P "Tick iv" t, OF tick] cond [OF c]] .
  show ?case
  proof (cases "e \<noteq> None \<or> d")
    case True
    with Suc.prems c e1 show ?thesis by auto
  next
    case False
    with Suc.prems c have "pollLoop condition iv n a1 t1 = (err, a', t')" by auto
    from extends_trans [OF e1 Suc.IH [OF this]] show ?thesis .
  qed
qed

lemma Poll_extends:
  assumes cond: "\<And>a t r a' t'. condition a t = (r, a', t') \<Longrightarrow> extends_with P t t'"
      and tick: "P (Tick iv)"
      and run: "PollUntilContextTimeout env iv tmo condition a t = (err, a', t')"
  shows "extends_with P t t'"
proof -
  obtain d e a1 t1 where c: "condition a t = ((d, e), a1, t1)"
    by (metis prod.exhaust)
  show ?thesis
  proof (cases "e \<noteq> None \<or> d")
    case True
    with run c cond [OF c] show ?thesis by (auto simp: PollUntilContextTimeout_def)
  next
    case False
    with run c have "pollLoop condition iv (ticks env t iv tmo) a1 t1 = (err, a', t')"
      by (auto simp: PollUntilContextTimeout_def)
    from extends_trans [OF cond [OF c] pollLoop_extends [OF cond tick this]] show ?thesis .
  qed
qed

lemma check_extends:
  assumes "check (r, t1) msg k = (r', t')"
      and "extends_with P t t1"
      and "\<And>v. r = Ok v \<Longrightarrow> k v t1 = (r', t') \<Longrightarrow> extends_with P t t'"
  shows "extends_with P t t'"
  using assms by (cases r) (auto simp: check_def)


lemma invoke_Get_extends:
  "quiet P \<Longrightarrow> invoke env (Get g ns nm) t = (r, t') \<Longrightarrow> extends_with P t t'"
  by (erule invoke_quiet) auto

lemma invoke_Delete_extends:
  "quiet P \<Longrightarrow> invoke env (Delete g ns nm) t = (r, t') \<Longrightarrow> extends_with P t t'"
  by (erule invoke_quiet) auto

lemma invoke_Update_extends:
  "quiet P \<Longrightarrow> invoke env (Update g ns obj) t = (r, t') \<Longrightarrow> extends_with P t t'"
  by (erule invoke_quiet) auto

lemma invoke_Create_extends:
  "quiet P \<Longrightarrow> g \<noteq> subscriptionGVR \<Longrightarrow> invoke env (Create g ns obj) t = (r, t') \<Longrightarrow> extends_with P t t'"
  by (erule invoke_quiet) auto

lemma quiet_Tick: "quiet P \<Longrightarrow> P (Tick d)"
  using quietD [of P "Tick d"] by simp

lemma quiet_Sleep: "quiet P \<Longrightarrow> P (Sleep d)"
  using quietD [of P "Sleep d"] by simp

lemma deletedCondition_extends:
  "quiet P \<Longrightarrow> deletedCondition env gvr ns nm a t = (r, a', t') \<Longrightarrow> extends_with P t t'"
  by (auto simp: deletedCondition_def split: prod.splits result.splits if_splits
           dest: invoke_Get_extends)

lemma deleteResource_extends:
  assumes q: "quiet P" and run: "deleteResource env opr gvr nm ns t = (r, t')"
  shows "extends_with P t t'"
proof (cases "ns = []")
  case True
  with run show ?thesis by (simp add: deleteResource_def extends_refl)
next
  case False
  obtain r1 t1 where d: "invoke env (Delete gvr ns nm) t = (r1, t1)"
    by (metis prod.exhaust)
  note e1 = invoke_Delete_extends [OF q d]
  show ?thesis
  proof (cases "case r1 of Err e \<Rightarrow> \<not> IsNotFound e | _ \<Rightarrow> False")
    case True
    with run False d e1 show ?thesis
      by (auto simp: deleteResource_def split: result.splits)
  next
    case nf: False
    obtain err a2 t2 where p: "PollUntilContextTimeout env (interval opr) (timeout opr)
        (deletedCondition env gvr ns nm) () t1 = (err, a2, t2)"
      by (metis prod.exhaust)
    have "extends_with P t1 t2"
      using Poll_extends [where P = P, OF _ _ p] deletedCondition_extends [OF q] quiet_Tick [OF q]
      by blast
    with e1 have "extends_with P t t2" by (rule extends_trans)
    moreover have "t' = t2"
      using run False d nf p by (auto simp: deleteResource_def split: option.splits)
    ultimately show ?thesis by simp
  qed
qed

lemma createLoop_extends:
  assumes q: "quiet P"
  shows "(\<And>resp. P (Call c resp)) \<Longrightarrow> createLoop env c attempt err t = (r, t')
           \<Longrightarrow> extends_with P t t'"
proof (induction env c attempt err t rule: createLoop.induct)
  case (1 env c attempt err t)
  note pc = 1(3) and run = 1(4)
  show ?case
  proof (cases "attempt \<le> 3")
    case False
    with run show ?thesis by (subst (asm) createLoop.simps) (simp add: extends_refl)
  next
    case True
    obtain r1 t1 where i: "invoke env c t = (r1, t1)" by (metis prod.exhaust)
    have e1: "extends_with P t t1" using invoke_extends [where P = P, OF i] pc by blast
    show ?thesis
    proof (cases r1)
      case (Ok v)
      with run True i e1 show ?thesis by (subst (asm) createLoop.simps) simp
    next
      case (Panic p)
      with run True i e1 show ?thesis by (subst (asm) createLoop.simps) simp
    next
      case (Err e)
      show ?thesis
      proof (cases "attempt < 3")
        case lt: True
        with run True i Err
        have "createLoop env c (attempt + 1) (Some e) (t1 @ [Sleep (2 ^ (attempt - 1) * Second)]) = (r, t')"
          by (subst (asm) createLoop.simps) simp
        from 1(1) [OF True i [symmetric] Err lt pc this]
        have "extends_with P (t1 @ [Sleep (2 ^ (attempt - 1) * Second)]) t'" .
        with extends_step [OF e1 quiet_Sleep [OF q]] show ?thesis
          by (blast intro: extends_trans)
      next
        case ge: False
        with run True i Err
        have "createLoop env c (attempt + 1) (Some e) t1 = (r, t')"
          by (subst (asm) createLoop.simps) simp
        from 1(2) [OF True i [symmetric] Err ge pc this]
        have "extends_with P t1 t'" .
        with e1 show ?thesis by (rule extends_trans)
      qed
    qed
  qed
qed

lemma check_ext:
  assumes run: "check f msg k = (r', t')"
      and first: "\<And>r1 t1. f = (r1, t1) \<Longrightarrow> extends_with P t t1"
      and rest: "\<And>v t1 r' t'. k v t1 = (r', t') \<Longrightarrow> extends_with P t1 t'"
  shows "extends_with P t t'"
proof -
  obtain r1 t1 where f: "f = (r1, t1)" by (metis prod.exhaust)
  note e1 = first [OF f]
  show ?thesis
  proof (cases r1)
    case (Ok v)
    with run f have "k v t1 = (r', t')" by (simp add: check_def)
    from extends_trans [OF e1 rest [OF this]] show ?thesis .
  next
    case (Err e)
    with run f e1 show ?thesis by (simp add: check_def)
  next
    case (Panic p)
    with run f e1 show ?thesis by (simp add: check_def)
  qed
qed

lemma createSubscription_extends:
  assumes q: "quiet P"
      and pc: "\<And>resp. P (Call (Create subscriptionGVR ns (subscriptionObject nm ns csv channel)) resp)"
      and run: "createSubscription env nm ns csv channel t = (r, t')"
  shows "extends_with P t t'"
proof -
  obtain r0 t0 where i: "invoke env (Create namespaceGVR '''' (namespaceObject ns)) t = (r0, t0)"
    by (metis prod.exhaust)
  have e0: "extends_with P t t0"
    by (rule invoke_Create_extends [OF q _ i]) simp
  show ?thesis
  proof (cases "case r0 of Err e \<Rightarrow> \<not> IsAlreadyExists e | _ \<Rightarrow> False")
    case True
    with run i e0 show ?thesis
      by (auto simp: createSubscription_def split: result.splits)
  next
    case False
    with run i have "createLoop env (Create subscriptionGVR ns (subscriptionObject nm ns csv channel)) 1
                 (case r0 of Err e \<Rightarrow> Some e | _ \<Rightarrow> None) t0 = (r, t')"
      by (simp add: createSubscription_def)
    from extends_trans [OF e0 createLoop_extends [OF q pc this]] show ?thesis .
  qed
qed

lemma installPlanCondition_extends:
  "quiet P \<Longrightarrow> installPlanCondition env nm ns a t = (r, a', t') \<Longrightarrow> extends_with P t t'"
  by (auto simp: installPlanCondition_def
           split: prod.splits result.splits if_splits option.splits json.splits
           dest: invoke_Get_extends)

lemma csvReadyCondition_extends:
  "quiet P \<Longrightarrow> csvReadyCondition env nm ns a t = (r, a', t') \<Longrightarrow> extends_with P t t'"
  by (auto simp: csvReadyCondition_def split: prod.splits result.splits if_splits
           dest: invoke_Get_extends)

lemma presentCondition_extends:
  "quiet P \<Longrightarrow> presentCondition env nm a t = (r, a', t') \<Longrightarrow> extends_with P t t'"
  by (auto simp: presentCondition_def split: prod.splits result.splits if_splits
           dest: invoke_Get_extends)

lemma packageManifestCondition_extends:
  "quiet P \<Longrightarrow> packageManifestCondition env opr csv a t = (r, a', t') \<Longrightarrow> extends_with P t t'"
  by (auto simp: packageManifestCondition_def split: prod.splits result.splits if_splits
           dest: invoke_Get_extends)

lemma waitInstallPlan_extends:
  assumes q: "quiet P" and run: "waitInstallPlan env opr nm ns t = (r, t')"
  shows "extends_with P t t'"
proof -
  obtain err a2 t2 where p: "PollUntilContextTimeout env (interval opr) (timeout opr)
      (installPlanCondition env nm ns) '''' t = (err, a2, t2)"
    by (metis prod.exhaust)
  have "extends_with P t t2"
    using Poll_extends [where P = P, OF _ _ p] installPlanCondition_extends [OF q] quiet_Tick [OF q]
    by blast
  moreover have "t' = t2"
    using run p by (auto simp: waitInstallPlan_def split: option.splits if_splits)
  ultimately show ?thesis by simp
qed

lemma waitCSVReady_extends:
  assumes q: "quiet P" and run: "waitCSVReady env opr nm ns t = (r, t')"
  shows "extends_with P t t'"
proof -
  obtain err a2 t2 where p: "PollUntilContextTimeout env (interval opr) (timeout opr)
      (csvReadyCondition env nm ns) () t = (err, a2, t2)"
    by (metis prod.exhaust)
  have "extends_with P t t2"
    using Poll_extends [where P = P, OF _ _ p] csvReadyCondition_extends [OF q] quiet_Tick [OF q]
    by blast
  moreover have "t' = t2"
    using run p by (auto simp: waitCSVReady_def split: option.splits)
  ultimately show ?thesis by simp
qed

lemma waitArtifactVersionPresent_extends:
  assumes q: "quiet P" and run: "waitArtifactVersionPresent env opr nm t = (r, t')"
  shows "extends_with P t t'"
proof -
  obtain err a2 t2 where p: "PollUntilContextTimeout env (interval opr) (timeout opr)
      (presentCondition env nm) (JMap []) t = (err, a2, t2)"
    by (metis prod.exhaust)
  have "extends_with P t t2"
    using Poll_extends [where P = P, OF _ _ p] presentCondition_extends [OF q] quiet_Tick [OF q]
    by blast
  moreover have "t' = t2"
    using run p by (auto simp: waitArtifactVersionPresent_def split: option.splits)
  ultimately show ?thesis by simp
qed

lemma waitPackageManifest_extends:
  assumes q: "quiet P" and run: "waitPackageManifest env opr csv t = (r, t')"
  shows "extends_with P t t'"
proof -
  obtain err a2 t2 where p: "PollUntilContextTimeout env (interval opr) (timeout opr)
      (packageManifestCondition env opr csv) () t = (err, a2, t2)"
    by (metis prod.exhaust)
  have "extends_with P t t2"
    using Poll_extends [where P = P, OF _ _ p] packageManifestCondition_extends [OF q]
      quiet_Tick [OF q]
    by blast
  moreover have "t' = t2"
    using run p by (auto simp: waitPackageManifest_def split: option.splits)
  ultimately show ?thesis by simp
qed

lemma createArtifactVersion_extends:
  assumes q: "quiet P" and run: "createArtifactVersion env opr version artifactObj t = (r, t')"
  shows "extends_with P t t'"
proof -
  obtain r1 t1 where g: "invoke env (Get artifactVersionGVR systemNamespace
      (GetName artifactObj @ ''.'' @ version)) t = (r1, t1)"
    by (metis prod.exhaust)
  note e1 = invoke_Get_extends [OF q g]
  show ?thesis
  proof (cases "\<exists>av. r1 = Ok av")
    case True
    with run g e1 show ?thesis
      by (auto simp: createArtifactVersion_def GetResource_def Let_def)
  next
    case False
    with run g have "invoke env (Create artifactVersionGVR systemNamespace
        (SetOwnerReferences
           (artifactVersionObject (GetName artifactObj @ ''.'' @ version) (GetName artifactObj) version)
           (ownerReference artifactObj))) t1 = (r, t')"
      by (cases r1) (auto simp: createArtifactVersion_def GetResource_def Let_def)
    from extends_trans [OF e1 invoke_Create_extends [OF q _ this]] show ?thesis by simp
  qed
qed

lemma afterCreate_extends:
  assumes q: "quiet P"
  shows "check (waitInstallPlan env opr (name opr) (namespace opr) t3)
          ''failed to wait for install plan: '' (\<lambda>installPlanName t4.
        check (invoke env (Get installPlanGVR (namespace opr) installPlanName) t4)
          ''failed to get install plan: '' (\<lambda>installPlan t5.
        case approve installPlan of
          Inl msg \<Rightarrow> (Panic msg, t5)
        | Inr approved \<Rightarrow>
        check (invoke env (Update installPlanGVR (namespace opr) approved) t5)
          ''failed to update install plan: '' (\<lambda>updated t6.
        check (waitCSVReady env opr csv (namespace opr) t6)
          ''failed to wait for csv to be ready: '' (\<lambda>u t7.
        (Ok (), t7))))) = (r, t')
     \<Longrightarrow> extends_with P t3 t'"
  apply (erule check_ext)
   apply (erule waitInstallPlan_extends [OF q])
  apply (erule check_ext)
   apply (erule invoke_Get_extends [OF q])
  apply (simp split: sum.splits add: extends_refl)
  apply (erule check_ext)
   apply (erule invoke_Update_extends [OF q])
  apply (erule check_ext)
   apply (erule waitCSVReady_extends [OF q])
  apply (simp add: extends_refl)
  done

lemma InstallSubscription_extends:
  assumes q: "quiet P"
      and pc: "\<And>resp. P (Call (Create subscriptionGVR (namespace opr)
                  (subscriptionObject (name opr) (namespace opr) csv channel)) resp)"
      and run: "InstallSubscription env opr csv channel t = (r, t')"
  shows "extends_with P t t'"
proof (cases "csv = []")
  case True
  with run show ?thesis by (simp add: InstallSubscription_def extends_refl)
next
  case False
  with run show ?thesis
    unfolding InstallSubscription_def
    apply simp
    apply (erule check_ext)
     apply (erule deleteResource_extends [OF q])
    apply (erule check_ext)
     apply (erule deleteResource_extends [OF q])
    apply (erule check_ext)
     apply (erule createSubscription_extends [OF q pc])
    apply (erule afterCreate_extends [OF q])
    done
qed

lemma InstallArtifactVersion_extends:
  assumes q: "quiet P" and run: "InstallArtifactVersion env opr version t = (r, t')"
  shows "extends_with P t t'"
  using run unfolding InstallArtifactVersion_def GetResource_def
  apply -
  apply (erule check_ext)
   apply (erule invoke_Get_extends [OF q])
  apply (erule check_ext)
   apply (erule createArtifactVersion_extends [OF q])
  apply (erule check_ext)
   apply (erule waitArtifactVersionPresent_extends [OF q])
  apply (simp split: prod.splits if_splits add: extends_refl)
  apply (erule check_ext)
   apply (erule waitPackageManifest_extends [OF q])
  apply (simp add: extends_refl)
  done

section \<open>What a confirmed deletion leaves in the journal\<close>

lemma deletedCondition_cases:
  "deletedCondition env gvr ns nm a t =
     (case respond env t (Get gvr ns nm) of
        Inl e \<Rightarrow> if IsNotFound e then ((True, None), a, t @ [Call (Get gvr ns nm) (Inl e)])
                 else ((False, Some e), a, t @ [Call (Get gvr ns nm) (Inl e)])
      | Inr obj \<Rightarrow> ((False, None), a, t @ [Call (Get gvr ns nm) (Inr obj)]))"
  by (simp add: deletedCondition_def invoke_def split: sum.splits)

lemma pollLoop_deleted:
  "pollLoop (deletedCondition env gvr ns nm) iv n a t = (None, a', t') \<Longrightarrow>
     \<exists>p. t' = t @ p \<and> p \<noteq> [] \<and> list_all (stillThere gvr ns nm) (butlast p) \<and>
         goneNow gvr ns nm (last p) \<and> length (filter isTick p) \<le> n"
proof (induction n arbitrary: a t)
  case 0
  then show ?case by simp
next
  case (Suc n)
  let ?t1 = "t @ [Tick iv]"
  show ?case
  proof (cases "respond env ?t1 (Get gvr ns nm)")
    case (Inl e)
    then have c: "deletedCondition env gvr ns nm () ?t1 =
        (if IsNotFound e then ((True, None), (), ?t1 @ [Call (Get gvr ns nm) (Inl e)])
         else ((False, Some e), (), ?t1 @ [Call (Get gvr ns nm) (Inl e)]))"
      by (simp add: deletedCondition_cases)
    from Suc.prems have nf: "IsNotFound e" and t': "t' = ?t1 @ [Call (Get gvr ns nm) (Inl e)]"
      by (auto simp: c split: if_splits)
    let ?p = "[Tick iv, Call (Get gvr ns nm) (Inl e)]"
    have "t' = t @ ?p \<and> ?p \<noteq> [] \<and> list_all (stillThere gvr ns nm) (butlast ?p) \<and>
          goneNow gvr ns nm (last ?p) \<and> length (filter isTick ?p) \<le> Suc n"
      using nf t' by simp
    then show ?thesis by blast
  next
    case (Inr obj)
    let ?t2 = "?t1 @ [Call (Get gvr ns nm) (Inr obj)]"
    from Inr have c: "deletedCondition env gvr ns nm () ?t1 = ((False, None), (), ?t2)"
      by (simp add: deletedCondition_cases)
    from Suc.prems have "pollLoop (deletedCondition env gvr ns nm) iv n a ?t2 = (None, a', t')"
      by (simp add: c)
    from Suc.IH [OF this] obtain p where p: "t' = ?t2 @ p" "p \<noteq> []"
      "list_all (stillThere gvr ns nm) (butlast p)" "goneNow gvr ns nm (last p)"
      "length (filter isTick p) \<le> n"
      by blast
    let ?p = "Tick iv # Call (Get gvr ns nm) (Inr obj) # p"
    have "t' = t @ ?p \<and> ?p \<noteq> [] \<and> list_all (stillThere gvr ns nm) (butlast ?p) \<and>
          goneNow gvr ns nm (last ?p) \<and> length (filter isTick ?p) \<le> Suc n"
      using p by simp
    then show ?thesis by blast
  qed
qed

lemma Poll_deleted:
  assumes "PollUntilContextTimeout env iv tmo (deletedCondition env gvr ns nm) a t = (None, a', t')"
  shows "\<exists>p. t' = t @ p \<and> p \<noteq> [] \<and> list_all (stillThere gvr ns nm) (butlast p) \<and>
             goneNow gvr ns nm (last p) \<and> length (filter isTick p) \<le> ticks env t iv tmo"
proof (cases "respond env t (Get gvr ns nm)")
  case (Inl e)
  then have c: "deletedCondition env gvr ns nm () t =
      (if IsNotFound e then ((True, None), (), t @ [Call (Get gvr ns nm) (Inl e)])
       else ((False, Some e), (), t @ [Call (Get gvr ns nm) (Inl e)]))"
    by (simp add: deletedCondition_cases)
  from assms have nf: "IsNotFound e" and t': "t' = t @ [Call (Get gvr ns nm) (Inl e)]"
    by (auto simp: PollUntilContextTimeout_def c split: if_splits)
  let ?p = "[Call (Get gvr ns nm) (Inl e)]"
  have "t' = t @ ?p \<and> ?p \<noteq> [] \<and> list_all (stillThere gvr ns nm) (butlast ?p) \<and>
        goneNow gvr ns nm (last ?p) \<and> length (filter isTick ?p) \<le> ticks env t iv tmo"
    using nf t' by simp
  then show ?thesis by blast
next
  case (Inr obj)
  let ?t2 = "t @ [Call (Get gvr ns nm) (Inr obj)]"
  from Inr have c: "deletedCondition env gvr ns nm () t = ((False, None), (), ?t2)"
    by (simp add: deletedCondition_cases)
  from assms
  have "pollLoop (deletedCondition env gvr ns nm) iv (ticks env t iv tmo) a ?t2 = (None, a', t')"
    by (simp add: PollUntilContextTimeout_def c)
  from pollLoop_deleted [OF this] obtain p where p: "t' = ?t2 @ p" "p \<noteq> []"
    "list_all (stillThere gvr ns nm) (butlast p)" "goneNow gvr ns nm (last p)"
    "length (filter isTick p) \<le> ticks env t iv tmo"
    by blast
  let ?p = "Call (Get gvr ns nm) (Inr obj) # p"
  have "t' = t @ ?p \<and> ?p \<noteq> [] \<and> list_all (stillThere gvr ns nm) (butlast ?p) \<and>
        goneNow gvr ns nm (last ?p) \<and> length (filter isTick ?p) \<le> ticks env t iv tmo"
    using p by simp
  then show ?thesis by blast
qed

lemma deleteResource_confirmed:
  assumes run: "deleteResource env opr gvr nm ns t = (Ok u, t')"
  shows "\<exists>x. t' = t @ x \<and>
             confirmedGone gvr ns nm (ticks env (t @ take 1 x) (interval opr) (timeout opr)) x"
proof -
  from run have ns: "ns \<noteq> ''''"
    by (auto simp: deleteResource_def)
  let ?d = "Call (Delete gvr ns nm) (respond env t (Delete gvr ns nm))"
  have i: "invoke env (Delete gvr ns nm) t =
             (fst (invoke env (Delete gvr ns nm) t), t @ [?d])"
    by (simp add: invoke_def split: sum.splits)
  obtain err a2 t2 where p: "PollUntilContextTimeout env (interval opr) (timeout opr)
      (deletedCondition env gvr ns nm) () (t @ [?d]) = (err, a2, t2)"
    by (metis prod.exhaust)
  from run ns i p have "err = None \<and> t' = t2"
    by (simp add: deleteResource_def split: if_splits result.splits option.splits prod.splits)
  with p Poll_deleted [of env "interval opr" "timeout opr" gvr ns nm "()" "t @ [?d]" a2 t2]
  obtain q where q: "t' = (t @ [?d]) @ q" "q \<noteq> []" "list_all (stillThere gvr ns nm) (butlast q)"
    "goneNow gvr ns nm (last q)"
    "length (filter isTick q) \<le> ticks env (t @ [?d]) (interval opr) (timeout opr)"
    by blast
  have "t' = t @ (?d # q) \<and>
        confirmedGone gvr ns nm (ticks env (t @ take 1 (?d # q)) (interval opr) (timeout opr)) (?d # q)"
    using q by (simp add: confirmedGone_def)
  then show ?thesis by blast
qed

lemma stillThere_quiet: "stillThere gvr ns nm ev \<Longrightarrow> \<not> isSubscriptionCreate ev"
  by (cases ev) auto

lemma goneNow_quiet: "goneNow gvr ns nm ev \<Longrightarrow> \<not> isSubscriptionCreate ev"
  by (cases ev) auto

lemma confirmedGone_quiet:
  assumes "confirmedGone gvr ns nm b x"
  shows "\<not> list_ex isSubscriptionCreate x"
proof (cases x)
  case Nil
  with assms show ?thesis by (simp add: confirmedGone_def)
next
  case (Cons ev rest)
  show ?thesis
  proof (cases ev)
    case (Call c d)
    with assms Cons have c: "c = Delete gvr ns nm" and ne: "rest \<noteq> []"
      and st: "list_all (stillThere gvr ns nm) (butlast rest)"
      and g: "goneNow gvr ns nm (last rest)"
      by (simp_all add: confirmedGone_def)
    have "set rest = set (butlast rest @ [last rest])"
      by (simp only: append_butlast_last_id [OF ne])
    then have "set rest = insert (last rest) (set (butlast rest))"
      by simp
    with st g have "\<forall>ev\<in>set rest. \<not> isSubscriptionCreate ev"
      by (auto simp: list_all_iff dest: stillThere_quiet goneNow_quiet)
    with Cons Call c show ?thesis by (simp add: list_ex_iff)
  qed (use assms Cons in \<open>simp_all add: confirmedGone_def\<close>)
qed

section \<open>Creating the Subscription: three attempts\<close>

text \<open>The loop, unrolled.\<close>

lemma createLoop_1:
  "createLoop env c (Suc 0) err t =
     (case invoke env c t of
        (Ok result, t1) \<Rightarrow> (Ok result, t1)
      | (Err e, t1) \<Rightarrow> createLoop env c 2 (Some e) (t1 @ [Sleep Second])
      | (Panic p, t1) \<Rightarrow> (Panic p, t1))"
  by (subst createLoop.simps) (simp add: numeral_2_eq_2 split: prod.splits result.splits)

lemma createLoop_2:
  "createLoop env c 2 err t =
     (case invoke env c t of
        (Ok result, t1) \<Rightarrow> (Ok result, t1)
      | (Err e, t1) \<Rightarrow> createLoop env c 3 (Some e) (t1 @ [Sleep (2 * Second)])
      | (Panic p, t1) \<Rightarrow> (Panic p, t1))"
  by (subst createLoop.simps) (simp split: prod.splits result.splits)

lemma createLoop_3:
  "createLoop env c 3 err t =
     (case invoke env c t of
        (Ok result, t1) \<Rightarrow> (Ok result, t1)
      | (Err e, t1) \<Rightarrow> createLoop env c 4 (Some e) t1
      | (Panic p, t1) \<Rightarrow> (Panic p, t1))"
  by (subst createLoop.simps) (simp split: prod.splits result.splits)

lemma createLoop_4:
  "createLoop env c 4 err t =
     (Err (ErrorString (''failed to create subscription after 3 attempts: '' @ fmt_v err)), t)"
  by (subst createLoop.simps) simp

lemmas createLoop_unroll = createLoop_1 createLoop_2 createLoop_3 createLoop_4

text \<open>When the namespace cannot be created, for another reason than that it exists, the
  function returns before its first attempt.\<close>

lemma createSubscription_namespace_error:
  assumes "invoke env (Create namespaceGVR '''' (namespaceObject ns)) t = (Err e, t0)"
      and "\<not> IsAlreadyExists e"
  shows "createSubscription env nm ns csv channel t =
           (Err (Errorf ''failed to create namespace: '' e), t0)"
  using assms by (simp add: createSubscription_def)

text \<open>
  Claim C1. \<open>createSubscription\<close> first creates the namespace; when that call succeeds or
  reports that the namespace already exists, the retry loop runs. Written \<open>c\<close> for the call
  that creates the Subscription and \<open>t0\<close> for the journal after the namespace call: if the
  first, second or third attempt succeeds, the function returns the created object and no
  error; it sleeps one second before the second attempt and two seconds before the third; if
  all three attempts fail it has made exactly three attempts, has not slept after the third,
  and returns the error \<open>failed to create subscription after 3 attempts: ...\<close> that wraps the
  last failure. The journal on the right is all that the function adds.
\<close>

theorem createSubscription_retry:
  fixes env nm ns csv channel t
  defines "c \<equiv> Create subscriptionGVR ns (subscriptionObject nm ns csv channel)"
  assumes nsc: "invoke env (Create namespaceGVR '''' (namespaceObject ns)) t = (r0, t0)"
      and tol: "\<forall>e. r0 = Err e \<longrightarrow> IsAlreadyExists e"
  shows
   "(\<forall>obj. respond env t0 c = Inr obj \<longrightarrow>
        createSubscription env nm ns csv channel t = (Ok obj, t0 @ [Call c (Inr obj)])) \<and>
    (\<forall>e1 obj. respond env t0 c = Inl e1 \<and>
        respond env (t0 @ [Call c (Inl e1), Sleep Second]) c = Inr obj \<longrightarrow>
        createSubscription env nm ns csv channel t =
          (Ok obj, t0 @ [Call c (Inl e1), Sleep Second, Call c (Inr obj)])) \<and>
    (\<forall>e1 e2 obj. respond env t0 c = Inl e1 \<and>
        respond env (t0 @ [Call c (Inl e1), Sleep Second]) c = Inl e2 \<and>
        respond env (t0 @ [Call c (Inl e1), Sleep Second, Call c (Inl e2), Sleep (2 * Second)]) c = Inr obj \<longrightarrow>
        createSubscription env nm ns csv channel t =
          (Ok obj, t0 @ [Call c (Inl e1), Sleep Second, Call c (Inl e2), Sleep (2 * Second),
                         Call c (Inr obj)])) \<and>
    (\<forall>e1 e2 e3. respond env t0 c = Inl e1 \<and>
        respond env (t0 @ [Call c (Inl e1), Sleep Second]) c = Inl e2 \<and>
        respond env (t0 @ [Call c (Inl e1), Sleep Second, Call c (Inl e2), Sleep (2 * Second)]) c = Inl e3 \<longrightarrow>
        createSubscription env nm ns csv channel t =
          (Err (ErrorString (''failed to create subscription after 3 attempts: '' @ Error e3)),
           t0 @ [Call c (Inl e1), Sleep Second, Call c (Inl e2), Sleep (2 * Second),
                 Call c (Inl e3)]))"
proof -
  have start: "createSubscription env nm ns csv channel t =
                 createLoop env c 1 (case r0 of Err e \<Rightarrow> Some e | _ \<Rightarrow> None) t0"
    using nsc tol by (cases r0) (auto simp: createSubscription_def c_def)
  show ?thesis
    unfolding start
    by (auto simp: createLoop_unroll invoke_def)
qed

text \<open>The four cases of the theorem, on a cluster where the first 0, 1, 2 or 3 attempts
  fail.\<close>

lemma flaky_ns:
  "invoke (flakyCluster k) (Create namespaceGVR '''' (namespaceObject ''ns'')) [] = (Ok (namespaceObject ''ns''), [demoNs])"
  by (simp add: invoke_def flakyCluster_def demoNs_def)

lemma flaky_respond:
  "respond (flakyCluster k) t demoCreate =
     (if length (filter isSubscriptionCreate t) < k then tryAgain else created)"
  by (simp add: flakyCluster_def demoCreate_def tryAgain_def created_def)

lemma demo_count [simp]:
  "\<not> isSubscriptionCreate demoNs" "isSubscriptionCreate (Call demoCreate r)"
  by (simp_all add: demoNs_def demoCreate_def)

theorem createSubscription_retry_witness:
  "createSubscription (flakyCluster 0) ''op'' ''ns'' ''op.v1'' ''stable'' [] =
     (Ok (subscriptionObject ''op'' ''ns'' ''op.v1'' ''stable''), [demoNs, Call demoCreate created]) \<and>
   createSubscription (flakyCluster 1) ''op'' ''ns'' ''op.v1'' ''stable'' [] =
     (Ok (subscriptionObject ''op'' ''ns'' ''op.v1'' ''stable''),
      [demoNs, Call demoCreate tryAgain, Sleep Second, Call demoCreate created]) \<and>
   createSubscription (flakyCluster 2) ''op'' ''ns'' ''op.v1'' ''stable'' [] =
     (Ok (subscriptionObject ''op'' ''ns'' ''op.v1'' ''stable''),
      [demoNs, Call demoCreate tryAgain, Sleep Second, Call demoCreate tryAgain,
       Sleep (2 * Second), Call demoCreate created]) \<and>
   createSubscription (flakyCluster 3) ''op'' ''ns'' ''op.v1'' ''stable'' [] =
     (Err (ErrorString ''failed to create subscription after 3 attempts: try again''),
      [demoNs, Call demoCreate tryAgain, Sleep Second, Call demoCreate tryAgain,
       Sleep (2 * Second), Call demoCreate tryAgain])"
proof -
  have tol: "\<forall>e. Ok (namespaceObject ''ns'') = Err e \<longrightarrow> IsAlreadyExists e" by simp
  note th = createSubscription_retry [OF flaky_ns tol, of _ "''op''" "''op.v1''" "''stable''",
      folded demoCreate_def, unfolded flaky_respond]
  have a: "createSubscription (flakyCluster 0) ''op'' ''ns'' ''op.v1'' ''stable'' [] =
     (Ok (subscriptionObject ''op'' ''ns'' ''op.v1'' ''stable''), [demoNs, Call demoCreate created])"
    using th [of 0] by (simp add: created_def)
  have b: "createSubscription (flakyCluster 1) ''op'' ''ns'' ''op.v1'' ''stable'' [] =
     (Ok (subscriptionObject ''op'' ''ns'' ''op.v1'' ''stable''),
      [demoNs, Call demoCreate tryAgain, Sleep Second, Call demoCreate created])"
    using th [of 1] by (simp add: created_def tryAgain_def)
  have c: "createSubscription (flakyCluster 2) ''op'' ''ns'' ''op.v1'' ''stable'' [] =
     (Ok (subscriptionObject ''op'' ''ns'' ''op.v1'' ''stable''),
      [demoNs, Call demoCreate tryAgain, Sleep Second, Call demoCreate tryAgain,
       Sleep (2 * Second), Call demoCreate created])"
    using th [of 2] by (simp add: created_def tryAgain_def)
  have d: "createSubscription (flakyCluster 3) ''op'' ''ns'' ''op.v1'' ''stable'' [] =
     (Err (ErrorString ''failed to create subscription after 3 attempts: try again''),
      [demoNs, Call demoCreate tryAgain, Sleep Second, Call demoCreate tryAgain,
       Sleep (2 * Second), Call demoCreate tryAgain])"
    using th [of 3] by (simp add: created_def tryAgain_def)
  from a b c d show ?thesis by (intro conjI)
qed

section \<open>Deleting what is not there\<close>

text \<open>
  In a namespace, deleting a resource that is not there is not an error: when the \<open>Delete\<close>
  call succeeds or answers not-found and the \<open>Get\<close> that follows answers not-found,
  \<open>deleteResource\<close> returns nil, and it has made just these two calls. Absence is confirmed
  by the first evaluation of the poll's condition, before any interval has passed.
\<close>

lemma deleteResource_in_namespace:
  assumes ns: "ns \<noteq> ''''"
      and del: "respond env t (Delete gvr ns nm) = d" "\<forall>e. d = Inl e \<longrightarrow> IsNotFound e"
      and get: "respond env (t @ [Call (Delete gvr ns nm) d]) (Get gvr ns nm) = Inl e'" "IsNotFound e'"
  shows "deleteResource env opr gvr nm ns t =
           (Ok (), t @ [Call (Delete gvr ns nm) d, Call (Get gvr ns nm) (Inl e')])"
proof (cases d)
  case (Inl e)
  with del have "IsNotFound e" by simp
  with ns del get Inl show ?thesis
    by (simp add: deleteResource_def invoke_def PollUntilContextTimeout_def deletedCondition_def)
next
  case (Inr obj)
  with ns del get show ?thesis
    by (simp add: deleteResource_def invoke_def PollUntilContextTimeout_def deletedCondition_def)
qed

lemma deleteResource_in_namespace_example:
  "deleteResource (flakyCluster 0) demoOperator csvGVR ''op.v1'' ''ns'' [] =
     (Ok (), [Call (Delete csvGVR ''ns'' ''op.v1'') notFound, Call (Get csvGVR ''ns'' ''op.v1'') notFound])"
proof -
  have ns: "''ns'' \<noteq> ''''" by simp
  have d: "respond (flakyCluster 0) [] (Delete csvGVR ''ns'' ''op.v1'') = notFound"
    by (simp add: flakyCluster_def notFound_def)
  have dn: "\<forall>e. notFound = Inl e \<longrightarrow> IsNotFound e"
    by (auto simp: notFound_def)
  have g: "respond (flakyCluster 0) ([] @ [Call (Delete csvGVR ''ns'' ''op.v1'') notFound])
             (Get csvGVR ''ns'' ''op.v1'') = Inl (StatusError NotFound ''not found'')"
    by (simp add: flakyCluster_def)
  have gn: "IsNotFound (StatusError NotFound ''not found'')" by simp
  show ?thesis
    using deleteResource_in_namespace [OF ns d dn g gn, of demoOperator]
    by (simp add: notFound_def)
qed

text \<open>
  The namespace of the operator is the one of the configuration, which has no default and
  is not validated: a configuration that leaves it out gives an operator whose namespace is
  empty, and \<open>InstallSubscription\<close> hands that namespace to \<open>deleteResource\<close>.
\<close>

lemma defaultConfig_Namespace:
  "Namespace (OperatorConfig (defaultConfig c)) = Namespace (OperatorConfig c)"
  by (simp add: defaultConfig_def Let_def)

lemma NewOperator_namespace:
  "NewOperator env options = Inr opr \<Longrightarrow> namespace opr = Namespace options"
  by (auto simp: NewOperator_def split: option.splits)

text \<open>
  Claim C8 fails on the code when the namespace is empty. Whatever the cluster holds, and so
  also when the resource is absent and every \<open>Get\<close> and \<open>Delete\<close> would answer not-found,
  \<open>deleteResource\<close> with an empty namespace does not return nil: the resource interface was
  never assigned, the call of \<open>Delete\<close> on it panics, and the cluster has not been called.
\<close>

theorem deleteResource_empty_namespace_panics:
  "deleteResource env opr gvr nm '''' t =
     (Panic ''runtime error: invalid memory address or nil pointer dereference'', t) \<and>
   fst (deleteResource env opr gvr nm '''' t) \<noteq> Ok ()"
  by (simp add: deleteResource_def)

text \<open>So does \<open>InstallSubscription\<close> for an operator without a namespace, at its first
  step; on the cluster where nothing exists the journal stays empty.\<close>

lemma InstallSubscription_empty_namespace:
  assumes "csv \<noteq> ''''" and "namespace opr = ''''"
  shows "InstallSubscription env opr csv channel t =
           (Panic ''runtime error: invalid memory address or nil pointer dereference'', t)"
  using assms by (simp add: InstallSubscription_def deleteResource_def check_def)

lemma InstallSubscription_empty_namespace_example:
  "InstallSubscription (flakyCluster 0) (demoOperator\<lparr>namespace := ''''\<rparr>) ''op.v1'' ''stable'' [] =
     (Panic ''runtime error: invalid memory address or nil pointer dereference'', [])"
  by (rule InstallSubscription_empty_namespace) simp_all

section \<open>Artifact versions are reused\<close>

lemma invoke_journal: "snd (invoke env c t) = t @ [Call c (respond env t c)]"
  by (simp add: invoke_def split: sum.splits)

text \<open>
  Claim C9. The name of the ArtifactVersion is the name of the Artifact, a dot, and the
  requested tag. \<open>createArtifactVersion\<close> first looks that name up in the system namespace.
  If a resource of that name exists, the function returns it as it is, and the lookup is the
  only call it has made: nothing is deleted or created. If the lookup fails, the one further
  call creates an object of exactly that name.
\<close>

theorem createArtifactVersion_reuse:
   "(\<forall>av. respond env t (Get artifactVersionGVR systemNamespace (GetName artifactObj @ ''.'' @ version)) = Inr av \<longrightarrow>
       createArtifactVersion env opr version artifactObj t =
         (Ok av, t @ [Call (Get artifactVersionGVR systemNamespace (GetName artifactObj @ ''.'' @ version)) (Inr av)])) \<and>
    (\<forall>e. respond env t (Get artifactVersionGVR systemNamespace (GetName artifactObj @ ''.'' @ version)) = Inl e \<longrightarrow>
       (\<exists>obj r. snd (createArtifactVersion env opr version artifactObj t) =
                  t @ [Call (Get artifactVersionGVR systemNamespace (GetName artifactObj @ ''.'' @ version)) (Inl e),
                       Call (Create artifactVersionGVR systemNamespace obj) r] \<and>
                GetName obj = GetName artifactObj @ ''.'' @ version))"
proof -
  have nm: "GetName (SetOwnerReferences (artifactVersionObject avName a version) ref) = avName"
    for a ref avName
    by (simp add: GetName_def SetOwnerReferences_def artifactVersionObject_def NestedString_def
                  NestedMap_def)
  show ?thesis
  proof (intro conjI allI impI)
    fix av
    assume "respond env t (Get artifactVersionGVR systemNamespace (GetName artifactObj @ ''.'' @ version)) = Inr av"
    then show "createArtifactVersion env opr version artifactObj t =
         (Ok av, t @ [Call (Get artifactVersionGVR systemNamespace (GetName artifactObj @ ''.'' @ version)) (Inr av)])"
      by (simp add: createArtifactVersion_def GetResource_def invoke_def)
  next
    fix e
    assume g: "respond env t (Get artifactVersionGVR systemNamespace (GetName artifactObj @ ''.'' @ version)) = Inl e"
    let ?obj = "SetOwnerReferences
         (artifactVersionObject (GetName artifactObj @ ''.'' @ version) (GetName artifactObj) version)
         (ownerReference artifactObj)"
    let ?t1 = "t @ [Call (Get artifactVersionGVR systemNamespace (GetName artifactObj @ ''.'' @ version)) (Inl e)]"
    have "snd (createArtifactVersion env opr version artifactObj t) =
            ?t1 @ [Call (Create artifactVersionGVR systemNamespace ?obj)
                     (respond env ?t1 (Create artifactVersionGVR systemNamespace ?obj))]"
    proof -
      have "invoke env (Get artifactVersionGVR systemNamespace (GetName artifactObj @ ''.'' @ version)) t
              = (Err e, ?t1)"
        using g by (simp add: invoke_def)
      then have "createArtifactVersion env opr version artifactObj t =
                   invoke env (Create artifactVersionGVR systemNamespace ?obj) ?t1"
        by (simp add: createArtifactVersion_def GetResource_def Let_def)
      then show ?thesis by (simp only: invoke_journal)
    qed
    moreover have "GetName ?obj = GetName artifactObj @ ''.'' @ version"
      by (rule nm)
    ultimately show "\<exists>obj r. snd (createArtifactVersion env opr version artifactObj t) =
                  t @ [Call (Get artifactVersionGVR systemNamespace (GetName artifactObj @ ''.'' @ version)) (Inl e),
                       Call (Create artifactVersionGVR systemNamespace obj) r] \<and>
                GetName obj = GetName artifactObj @ ''.'' @ version"
      by auto
  qed
qed

theorem createArtifactVersion_reuse_witness:
  "createArtifactVersion upgradeCluster demoOperator ''v1'' demoArtifact [] =
     (Ok demoArtifactVersion,
      [Call (Get artifactVersionGVR systemNamespace ''operatorhub-op.v1'') (Inr demoArtifactVersion)]) \<and>
   (\<exists>obj r. snd (createArtifactVersion (flakyCluster 0) demoOperator ''v1'' demoArtifact []) =
              [Call (Get artifactVersionGVR systemNamespace ''operatorhub-op.v1'') notFound,
               Call (Create artifactVersionGVR systemNamespace obj) r] \<and>
            GetName obj = ''operatorhub-op.v1'')"
proof -
  have n: "GetName demoArtifact @ ''.'' @ ''v1'' = ''operatorhub-op.v1''"
    by (simp add: GetName_def demoArtifact_def NestedString_def)
  have g: "respond upgradeCluster [] (Get artifactVersionGVR systemNamespace ''operatorhub-op.v1'')
             = Inr demoArtifactVersion"
    by (simp add: upgradeCluster_def)
  from createArtifactVersion_reuse [of upgradeCluster "[]" demoArtifact "''v1''" demoOperator]
  have "\<forall>av. respond upgradeCluster [] (Get artifactVersionGVR systemNamespace (GetName demoArtifact @ ''.'' @ ''v1'')) = Inr av \<longrightarrow>
       createArtifactVersion upgradeCluster demoOperator ''v1'' demoArtifact [] =
         (Ok av, [] @ [Call (Get artifactVersionGVR systemNamespace (GetName demoArtifact @ ''.'' @ ''v1'')) (Inr av)])"
    by (rule conjunct1)
  then have reuse: "createArtifactVersion upgradeCluster demoOperator ''v1'' demoArtifact [] =
     (Ok demoArtifactVersion,
      [Call (Get artifactVersionGVR systemNamespace ''operatorhub-op.v1'') (Inr demoArtifactVersion)])"
    unfolding n using g by simp
  have h: "respond (flakyCluster 0) [] (Get artifactVersionGVR systemNamespace ''operatorhub-op.v1'')
             = Inl (StatusError NotFound ''not found'')"
    by (simp add: flakyCluster_def)
  from createArtifactVersion_reuse [of "flakyCluster 0" "[]" demoArtifact "''v1''" demoOperator]
  have "\<forall>e. respond (flakyCluster 0) [] (Get artifactVersionGVR systemNamespace (GetName demoArtifact @ ''.'' @ ''v1'')) = Inl e \<longrightarrow>
       (\<exists>obj r. snd (createArtifactVersion (flakyCluster 0) demoOperator ''v1'' demoArtifact []) =
                  [] @ [Call (Get artifactVersionGVR systemNamespace (GetName demoArtifact @ ''.'' @ ''v1'')) (Inl e),
                       Call (Create artifactVersionGVR systemNamespace obj) r] \<and>
                GetName obj = GetName demoArtifact @ ''.'' @ ''v1'')"
    by (rule conjunct2)
  then have fresh: "\<exists>obj r. snd (createArtifactVersion (flakyCluster 0) demoOperator ''v1'' demoArtifact []) =
              [Call (Get artifactVersionGVR systemNamespace ''operatorhub-op.v1'') notFound,
               Call (Create artifactVersionGVR systemNamespace obj) r] \<and>
            GetName obj = ''operatorhub-op.v1''"
    unfolding n using h by (simp add: notFound_def)
  from reuse fresh show ?thesis ..
qed

section \<open>Deletion comes before creation\<close>

lemma no_create:
  "extends_with (\<lambda>ev. \<not> isSubscriptionCreate ev) t (t @ ext) \<Longrightarrow> \<not> list_ex isSubscriptionCreate ext"
  by (auto simp: extends_with_def list_all_iff list_ex_iff)

lemma quiet_not_create: "quiet (\<lambda>ev. \<not> isSubscriptionCreate ev)"
  by (simp add: quiet_def)

lemma quiet_True: "quiet (\<lambda>ev. True)"
  by (simp add: quiet_def)

lemma extends_TrueD: "extends_with (\<lambda>ev. True) t t' \<Longrightarrow> \<exists>z. t' = t @ z"
  by (auto simp: extends_with_def)

lemma createLoop_first:
  assumes "createLoop env c 1 err t = (r, t')"
  shows "\<exists>rs z. t' = t @ Call c rs # z"
proof -
  let ?rs = "respond env t c"
  have i: "invoke env c t = (fst (invoke env c t), t @ [Call c ?rs])"
    by (simp add: invoke_def split: sum.splits)
  show ?thesis
  proof (cases "fst (invoke env c t)")
    case (Ok v)
    with assms i have "t' = t @ [Call c ?rs]"
      by (subst (asm) createLoop.simps) (simp split: prod.splits)
    then show ?thesis by blast
  next
    case (Panic p)
    with assms i have "t' = t @ [Call c ?rs]"
      by (subst (asm) createLoop.simps) (simp split: prod.splits)
    then show ?thesis by blast
  next
    case (Err e)
    with assms i
    have "createLoop env c 2 (Some e) ((t @ [Call c ?rs]) @ [Sleep (2 ^ (1 - 1) * Second)]) = (r, t')"
      by (subst (asm) createLoop.simps) (simp add: numeral_2_eq_2 split: prod.splits)
    from extends_TrueD [OF createLoop_extends [OF quiet_True _ this]]
    obtain z where "t' = ((t @ [Call c ?rs]) @ [Sleep (2 ^ (1 - 1) * Second)]) @ z"
      by auto
    then have "t' = t @ Call c ?rs # (Sleep (2 ^ (1 - 1) * Second) # z)" by simp
    then show ?thesis by blast
  qed
qed

text \<open>
  Claim C2. Take an execution of \<open>InstallSubscription\<close> that creates a Subscription, that is,
  whose additions \<open>ext\<close> to the journal contain such a call. Then \<open>ext\<close> begins with the
  confirmed deletion \<open>x\<close> of the Subscription named after the operator and the confirmed
  deletion \<open>y\<close> of the CSV, each in the operator's namespace: the \<open>Delete\<close> call, a poll that
  stays within its bound of intervals, and at its end a \<open>Get\<close> that answers not-found. Only
  then comes the creation of the namespace and, right after it, the first call that creates
  the Subscription. Nothing in \<open>x\<close> and \<open>y\<close> creates a Subscription: when the new one is
  created, the latest answer of the cluster about a Subscription of that name is not-found,
  and the reconciler has created none since.
\<close>

theorem InstallSubscription_deletes_first:
  assumes run: "InstallSubscription env opr csv channel t = (r, t @ ext)"
      and reached: "list_ex isSubscriptionCreate ext"
  shows "\<exists>x y rn rs z.
           ext = x @ y @
                 Call (Create namespaceGVR '''' (namespaceObject (namespace opr))) rn #
                 Call (Create subscriptionGVR (namespace opr)
                         (subscriptionObject (name opr) (namespace opr) csv channel)) rs # z \<and>
           confirmedGone subscriptionGVR (namespace opr) (name opr)
             (ticks env (t @ take 1 x) (interval opr) (timeout opr)) x \<and>
           confirmedGone csvGVR (namespace opr) csv
             (ticks env (t @ x @ take 1 y) (interval opr) (timeout opr)) y \<and>
           \<not> list_ex isSubscriptionCreate (x @ y)"
proof -
  let ?nq = "\<lambda>ev. \<not> isSubscriptionCreate ev"
  let ?c = "Create subscriptionGVR (namespace opr)
              (subscriptionObject (name opr) (namespace opr) csv channel)"
  let ?n = "Create namespaceGVR '''' (namespaceObject (namespace opr))"
  note q = quiet_not_create
  have ne: "csv \<noteq> ''''"
    using run reached by (auto simp: InstallSubscription_def)
  \<comment> \<open>the old Subscription\<close>
  obtain r1 t1 where s1:
    "deleteResource env opr subscriptionGVR (name opr) (namespace opr) t = (r1, t1)"
    by (metis prod.exhaust)
  note e1 = deleteResource_extends [OF q s1]
  have "\<exists>u. r1 = Ok u"
  proof (rule ccontr)
    assume "\<nexists>u. r1 = Ok u"
    with run ne s1 have "t @ ext = t1"
      by (cases r1) (auto simp: InstallSubscription_def check_def)
    with e1 reached show False by (auto dest: no_create)
  qed
  then obtain u1 where r1: "r1 = Ok u1" ..
  from deleteResource_confirmed [OF s1 [unfolded r1]]
  obtain x where x: "t1 = t @ x"
    "confirmedGone subscriptionGVR (namespace opr) (name opr)
       (ticks env (t @ take 1 x) (interval opr) (timeout opr)) x"
    by blast
  \<comment> \<open>the old CSV\<close>
  obtain r2 t2 where s2: "deleteResource env opr csvGVR csv (namespace opr) t1 = (r2, t2)"
    by (metis prod.exhaust)
  note e2 = extends_trans [OF e1 deleteResource_extends [OF q s2]]
  have "\<exists>u. r2 = Ok u"
  proof (rule ccontr)
    assume "\<nexists>u. r2 = Ok u"
    with run ne s1 r1 s2 have "t @ ext = t2"
      by (cases r2) (auto simp: InstallSubscription_def check_def)
    with e2 reached show False by (auto dest: no_create)
  qed
  then obtain u2 where r2: "r2 = Ok u2" ..
  from deleteResource_confirmed [OF s2 [unfolded r2]]
  obtain y where y: "t2 = t1 @ y"
    "confirmedGone csvGVR (namespace opr) csv
       (ticks env (t1 @ take 1 y) (interval opr) (timeout opr)) y"
    by blast
  have xy: "\<not> list_ex isSubscriptionCreate (x @ y)"
    using confirmedGone_quiet [OF x(2)] confirmedGone_quiet [OF y(2)] by simp
  \<comment> \<open>the namespace and the first attempt\<close>
  let ?rn = "respond env t2 ?n"
  let ?t3 = "t2 @ [Call ?n ?rn]"
  have i: "invoke env ?n t2 = (fst (invoke env ?n t2), ?t3)"
    by (simp add: invoke_def split: sum.splits)
  obtain r3 t4 where s3:
    "createSubscription env (name opr) (namespace opr) csv channel t2 = (r3, t4)"
    by (metis prod.exhaust)
  have tail: "\<exists>z. t @ ext = t4 @ z"
  proof -
    from run ne s1 r1 s2 r2 s3
    have "check (r3, t4) ''failed to create subscription: '' (\<lambda>created t3.
        check (waitInstallPlan env opr (name opr) (namespace opr) t3)
          ''failed to wait for install plan: '' (\<lambda>installPlanName t4.
        check (invoke env (Get installPlanGVR (namespace opr) installPlanName) t4)
          ''failed to get install plan: '' (\<lambda>installPlan t5.
        case approve installPlan of
          Inl msg \<Rightarrow> (Panic msg, t5)
        | Inr approved \<Rightarrow>
        check (invoke env (Update installPlanGVR (namespace opr) approved) t5)
          ''failed to update install plan: '' (\<lambda>updated t6.
        check (waitCSVReady env opr csv (namespace opr) t6)
          ''failed to wait for csv to be ready: '' (\<lambda>u t7.
        (Ok (), t7)))))) = (r, t @ ext)"
      by (simp add: InstallSubscription_def check_def)
    then have "extends_with (\<lambda>ev. True) t4 (t @ ext)"
      by (rule check_ext) (auto simp: extends_refl elim: afterCreate_extends [OF quiet_True])
    then show ?thesis by (rule extends_TrueD)
  qed
  have first: "\<exists>rs z. t4 = ?t3 @ Call ?c rs # z"
  proof (cases "case fst (invoke env ?n t2) of Err e \<Rightarrow> \<not> IsAlreadyExists e | _ \<Rightarrow> False")
    case True
    with s3 i have "t4 = ?t3"
      by (auto simp: createSubscription_def split: result.splits prod.splits)
    moreover have "r3 \<noteq> Ok v" for v
      using True s3 i by (auto simp: createSubscription_def split: result.splits prod.splits)
    ultimately have "t @ ext = ?t3"
      using run ne s1 r1 s2 r2 s3 by (cases r3) (auto simp: InstallSubscription_def check_def)
    then have "ext = x @ y @ [Call ?n ?rn]"
      using x(1) y(1) by simp
    with xy reached show ?thesis by simp
  next
    case False
    with s3 i have "createLoop env ?c 1
        (case fst (invoke env ?n t2) of Err e \<Rightarrow> Some e | _ \<Rightarrow> None) ?t3 = (r3, t4)"
      by (auto simp: createSubscription_def split: prod.splits)
    then show ?thesis by (rule createLoop_first)
  qed
  from tail first obtain rs z z' where "t @ ext = (?t3 @ Call ?c rs # z) @ z'" by blast
  then have "ext = x @ y @ Call ?n ?rn # Call ?c rs # (z @ z')"
    using x(1) y(1) by simp
  with x(2) y(2) [unfolded x(1)] xy show ?thesis
    by (metis append.assoc)
qed

text \<open>The same on the cluster in the middle of an upgrade, where the old Subscription
  lingers for one interval after its deletion.\<close>

lemma upgrade_respond:
  "respond upgradeCluster t (Get gvr ns nm) =
     (if gvr = artifactGVR then Inr demoArtifact
      else if gvr = artifactVersionGVR then Inr demoArtifactVersion
      else if gvr = packageManifestGVR then Inr demoPackageManifest
      else if gvr = installPlanGVR then Inr demoInstallPlan
      else if gvr = subscriptionGVR then
        (if list_ex isSubscriptionCreate t then Inr newSubscription
         else if list_ex isTick t then notFound
         else Inr staleSubscription)
      else if gvr = csvGVR then (if list_ex isUpdate t then Inr demoCSV else notFound)
      else notFound)"
  "respond upgradeCluster t (Delete gvr ns nm) =
     (if gvr = subscriptionGVR then Inr staleSubscription else notFound)"
  "respond upgradeCluster t (Create gvr ns obj) = Inr obj"
  "respond upgradeCluster t (Update gvr ns obj) = Inr obj"
  "ticks upgradeCluster t iv tmo = 1"
  by (simp_all add: upgradeCluster_def)

lemma demoOperator_fields [simp]:
  "namespace demoOperator = ''ns''" "name demoOperator = ''op''"
  "artifact demoOperator = ''operatorhub-op''"
  "interval demoOperator = 5 * Second" "timeout demoOperator = 10 * 60 * Second"
  by (simp_all add: demoOperator_def)

lemmas upgrade_eval =
  InstallSubscription_def check_def deleteResource_def invoke_def upgrade_respond
  PollUntilContextTimeout_def deletedCondition_def notFound_def createSubscription_def
  createLoop_1 waitInstallPlan_def installPlanCondition_def JsonPathLookup_def
  newSubscription_def approve_def demoInstallPlan_def waitCSVReady_def csvReadyCondition_def
  phaseIs_def NestedMap_def demoCSV_def upgradeJournal_def demoNs_def demoCreate_def
  created_def

lemma upgrade_run:
  "InstallSubscription upgradeCluster demoOperator ''op.v1'' ''stable'' [] = (Ok (), upgradeJournal)"
  by (simp add: upgrade_eval)

lemma upgrade_run_after:
  "InstallSubscription upgradeCluster demoOperator ''op.v1'' ''stable'' prepareJournal =
     (Ok (), prepareJournal @ upgradeJournal)"
  by (simp add: upgrade_eval prepareJournal_def)

theorem InstallSubscription_deletes_first_witness:
  "InstallSubscription upgradeCluster demoOperator ''op.v1'' ''stable'' [] = (Ok (), upgradeJournal) \<and>
   list_ex isSubscriptionCreate upgradeJournal \<and>
   (\<exists>x y rn rs z.
      upgradeJournal = x @ y @
        Call (Create namespaceGVR '''' (namespaceObject (namespace demoOperator))) rn #
        Call (Create subscriptionGVR (namespace demoOperator)
                (subscriptionObject (name demoOperator) (namespace demoOperator) ''op.v1'' ''stable'')) rs # z \<and>
      confirmedGone subscriptionGVR (namespace demoOperator) (name demoOperator)
        (ticks upgradeCluster ([] @ take 1 x) (interval demoOperator) (timeout demoOperator)) x \<and>
      confirmedGone csvGVR (namespace demoOperator) ''op.v1''
        (ticks upgradeCluster ([] @ x @ take 1 y) (interval demoOperator) (timeout demoOperator)) y \<and>
      \<not> list_ex isSubscriptionCreate (x @ y))"
proof -
  have run: "InstallSubscription upgradeCluster demoOperator ''op.v1'' ''stable'' [] =
               (Ok (), [] @ upgradeJournal)"
    using upgrade_run by simp
  have reached: "list_ex isSubscriptionCreate upgradeJournal"
    by (simp add: upgradeJournal_def demoCreate_def demoNs_def)
  from upgrade_run reached InstallSubscription_deletes_first [OF run reached]
  show ?thesis by (intro conjI)
qed

section \<open>The default channel\<close>

lemma quiet_channelIs: "quiet (channelIs ch)"
proof -
  have "isSubscriptionCreate ev \<or> channelIs ch ev" for ev
  proof (cases ev)
    case (Call c r)
    then show ?thesis by (cases c) auto
  qed auto
  then show ?thesis by (simp add: quiet_def)
qed

lemma subscriptionObject_channel:
  "NestedString (subscriptionObject nm ns csv channel) [''spec'', ''channel''] = (channel, True)"
  by (simp add: subscriptionObject_def NestedString_def)

lemma UpgradeOperator_extends:
  assumes run: "UpgradeOperator env opr version t = (r, t')"
  shows "extends_with (channelIs (if Channel version = '''' then ''stable'' else Channel version)) t t'"
  using run unfolding UpgradeOperator_def Let_def
  apply -
  apply (erule check_ext)
   apply (erule InstallArtifactVersion_extends [OF quiet_channelIs])
  apply (erule check_ext)
   apply (erule InstallSubscription_extends [OF quiet_channelIs, rotated])
   apply (simp add: subscriptionObject_channel)
  apply (simp add: extends_refl)
  done

text \<open>
  Once the two deletions are confirmed and the namespace is there, \<open>InstallSubscription\<close>
  creates the Subscription with the CSV and the channel it was given; and it returns nil
  only after it has come that far.
\<close>

lemma InstallArtifactVersion_csv:
  assumes "InstallArtifactVersion env opr v t = (Ok av, t1)"
  shows "fst (NestedString av [''status'', ''version'']) \<noteq> ''''"
  using assms
  by (auto simp: InstallArtifactVersion_def check_def split: prod.splits result.splits if_splits)

lemma snd_check_Ok: "snd (check f msg (\<lambda>u t2. (Ok (), t2))) = snd f"
  by (auto simp: check_def split: prod.splits result.splits)

lemma InstallSubscription_creates:
  assumes ne: "csv \<noteq> ''''"
      and s1: "deleteResource env opr subscriptionGVR (name opr) (namespace opr) t = (Ok u1, t1)"
      and s2: "deleteResource env opr csvGVR csv (namespace opr) t1 = (Ok u2, t2)"
      and ns: "\<forall>e. respond env t2 (Create namespaceGVR '''' (namespaceObject (namespace opr))) = Inl e
                 \<longrightarrow> IsAlreadyExists e"
  shows "\<exists>rn rs z. snd (InstallSubscription env opr csv channel t) =
           t2 @ Call (Create namespaceGVR '''' (namespaceObject (namespace opr))) rn #
                Call (Create subscriptionGVR (namespace opr)
                        (subscriptionObject (name opr) (namespace opr) csv channel)) rs # z"
proof -
  let ?c = "Create subscriptionGVR (namespace opr)
              (subscriptionObject (name opr) (namespace opr) csv channel)"
  let ?n = "Create namespaceGVR '''' (namespaceObject (namespace opr))"
  let ?rn = "respond env t2 ?n"
  let ?t3 = "t2 @ [Call ?n ?rn]"
  obtain r t' where run: "InstallSubscription env opr csv channel t = (r, t')"
    by (metis prod.exhaust)
  obtain r3 t4 where s3:
    "createSubscription env (name opr) (namespace opr) csv channel t2 = (r3, t4)"
    by (metis prod.exhaust)
  have i: "invoke env ?n t2 = (fst (invoke env ?n t2), ?t3)"
    by (simp add: invoke_def split: sum.splits)
  have tol: "\<not> (case fst (invoke env ?n t2) of Err e \<Rightarrow> \<not> IsAlreadyExists e | _ \<Rightarrow> False)"
    using ns by (auto simp: invoke_def split: sum.splits)
  from s3 i tol have "createLoop env ?c 1
      (case fst (invoke env ?n t2) of Err e \<Rightarrow> Some e | _ \<Rightarrow> None) ?t3 = (r3, t4)"
    by (auto simp: createSubscription_def split: prod.splits)
  then have "\<exists>rs z. t4 = ?t3 @ Call ?c rs # z" by (rule createLoop_first)
  then obtain rs z where first: "t4 = ?t3 @ Call ?c rs # z" by blast
  from run ne s1 s2 s3
  have "check (r3, t4) ''failed to create subscription: '' (\<lambda>created t3.
      check (waitInstallPlan env opr (name opr) (namespace opr) t3)
        ''failed to wait for install plan: '' (\<lambda>installPlanName t4.
      check (invoke env (Get installPlanGVR (namespace opr) installPlanName) t4)
        ''failed to get install plan: '' (\<lambda>installPlan t5.
      case approve installPlan of
        Inl msg \<Rightarrow> (Panic msg, t5)
      | Inr approved \<Rightarrow>
      check (invoke env (Update installPlanGVR (namespace opr) approved) t5)
        ''failed to update install plan: '' (\<lambda>updated t6.
      check (waitCSVReady env opr csv (namespace opr) t6)
        ''failed to wait for csv to be ready: '' (\<lambda>u t7.
      (Ok (), t7)))))) = (r, t')"
    by (simp add: InstallSubscription_def check_def)
  then have "extends_with (\<lambda>ev. True) t4 t'"
    by (rule check_ext) (auto simp: extends_refl elim: afterCreate_extends [OF quiet_True])
  then obtain z' where "t' = t4 @ z'" by (auto dest: extends_TrueD)
  with first have "t' = t2 @ Call ?n ?rn # Call ?c rs # (z @ z')" by simp
  with run show ?thesis by (metis snd_conv)
qed

lemma InstallSubscription_Ok:
  assumes run: "InstallSubscription env opr csv channel t = (Ok u, t')"
  shows "csv \<noteq> '''' \<and>
         (\<exists>t1 t2. deleteResource env opr subscriptionGVR (name opr) (namespace opr) t = (Ok (), t1) \<and>
                  deleteResource env opr csvGVR csv (namespace opr) t1 = (Ok (), t2) \<and>
                  (\<forall>e. respond env t2 (Create namespaceGVR '''' (namespaceObject (namespace opr))) = Inl e
                         \<longrightarrow> IsAlreadyExists e))"
proof -
  let ?n = "Create namespaceGVR '''' (namespaceObject (namespace opr))"
  have ne: "csv \<noteq> ''''"
    using run by (auto simp: InstallSubscription_def)
  obtain r1 t1 where s1:
    "deleteResource env opr subscriptionGVR (name opr) (namespace opr) t = (r1, t1)"
    by (metis prod.exhaust)
  have r1: "r1 = Ok ()"
    using run ne s1 by (cases r1) (auto simp: InstallSubscription_def check_def)
  obtain r2 t2 where s2: "deleteResource env opr csvGVR csv (namespace opr) t1 = (r2, t2)"
    by (metis prod.exhaust)
  have r2: "r2 = Ok ()"
    using run ne s1 r1 s2 by (cases r2) (auto simp: InstallSubscription_def check_def)
  obtain r3 t4 where s3:
    "createSubscription env (name opr) (namespace opr) csv channel t2 = (r3, t4)"
    by (metis prod.exhaust)
  have r3: "\<exists>v. r3 = Ok v"
    using run ne s1 r1 s2 r2 s3 by (cases r3) (auto simp: InstallSubscription_def check_def)
  have "\<forall>e. respond env t2 ?n = Inl e \<longrightarrow> IsAlreadyExists e"
  proof (intro allI impI)
    fix e assume "respond env t2 ?n = Inl e"
    then have i: "invoke env ?n t2 = (Err e, t2 @ [Call ?n (Inl e)])"
      by (simp add: invoke_def)
    show "IsAlreadyExists e"
    proof (rule ccontr)
      assume "\<not> IsAlreadyExists e"
      with s3 i have "r3 = Err (Errorf ''failed to create namespace: '' e)"
        by (simp add: createSubscription_def)
      with r3 show False by simp
    qed
  qed
  with ne s1 r1 s2 r2 show ?thesis by blast
qed

text \<open>
  Claim C10. The channel of the Subscription that \<open>UpgradeOperator\<close> installs is \<open>stable\<close>
  when the version's \<open>Channel\<close> is empty, and the version's \<open>Channel\<close> otherwise. Three facts,
  for every cluster, operator and version. First, whatever \<open>UpgradeOperator\<close> adds to the
  journal, every call in it that creates a Subscription carries an object whose
  \<open>spec.channel\<close> is that channel. Second, the call is made: once the artifact version \<open>av\<close> is
  prepared, the old Subscription and the old CSV are deleted and the namespace is created or
  exists already, the next call creates the Subscription of the operator's name and
  namespace, with the CSV that \<open>av\<close> reports as starting CSV and with that channel. Third, a
  call of \<open>UpgradeOperator\<close> that returns nil has made this call, and no other creation of a
  Subscription before it.
\<close>

theorem UpgradeOperator_channel:
  "extends_with (channelIs (if Channel version = '''' then ''stable'' else Channel version)) t
     (snd (UpgradeOperator env opr version t)) \<and>
   (\<forall>av t1 t2 t3.
      InstallArtifactVersion env opr (BundleVersion version) t = (Ok av, t1) \<and>
      deleteResource env opr subscriptionGVR (name opr) (namespace opr) t1 = (Ok (), t2) \<and>
      deleteResource env opr csvGVR (fst (NestedString av [''status'', ''version'']))
        (namespace opr) t2 = (Ok (), t3) \<and>
      (\<forall>e. respond env t3 (Create namespaceGVR '''' (namespaceObject (namespace opr))) = Inl e
             \<longrightarrow> IsAlreadyExists e)
      \<longrightarrow> (\<exists>rn rs z. snd (UpgradeOperator env opr version t) =
             t3 @ Call (Create namespaceGVR '''' (namespaceObject (namespace opr))) rn #
                  Call (Create subscriptionGVR (namespace opr)
                          (subscriptionObject (name opr) (namespace opr)
                             (fst (NestedString av [''status'', ''version'']))
                             (if Channel version = '''' then ''stable'' else Channel version))) rs # z)) \<and>
   (\<forall>t'. UpgradeOperator env opr version t = (Ok (), t') \<longrightarrow>
      (\<exists>av t1 x rn rs z.
         InstallArtifactVersion env opr (BundleVersion version) t = (Ok av, t1) \<and>
         t' = t1 @ x @
              Call (Create namespaceGVR '''' (namespaceObject (namespace opr))) rn #
              Call (Create subscriptionGVR (namespace opr)
                      (subscriptionObject (name opr) (namespace opr)
                         (fst (NestedString av [''status'', ''version'']))
                         (if Channel version = '''' then ''stable'' else Channel version))) rs # z \<and>
         \<not> list_ex isSubscriptionCreate x))"
proof (intro conjI allI impI)
  show "extends_with (channelIs (if Channel version = '''' then ''stable'' else Channel version)) t
          (snd (UpgradeOperator env opr version t))"
    by (rule UpgradeOperator_extends [of env opr version t "fst (UpgradeOperator env opr version t)"])
       simp
next
  fix av t1 t2 t3
  let ?csv = "fst (NestedString av [''status'', ''version''])"
  let ?ch = "if Channel version = '''' then ''stable'' else Channel version"
  assume h: "InstallArtifactVersion env opr (BundleVersion version) t = (Ok av, t1) \<and>
      deleteResource env opr subscriptionGVR (name opr) (namespace opr) t1 = (Ok (), t2) \<and>
      deleteResource env opr csvGVR ?csv (namespace opr) t2 = (Ok (), t3) \<and>
      (\<forall>e. respond env t3 (Create namespaceGVR '''' (namespaceObject (namespace opr))) = Inl e
             \<longrightarrow> IsAlreadyExists e)"
  then have p: "InstallArtifactVersion env opr (BundleVersion version) t = (Ok av, t1)" by simp
  have u: "snd (UpgradeOperator env opr version t) = snd (InstallSubscription env opr ?csv ?ch t1)"
    by (simp add: UpgradeOperator_def p check_def Let_def split: prod.splits result.splits)
  from h have s1: "deleteResource env opr subscriptionGVR (name opr) (namespace opr) t1 = (Ok (), t2)"
    and s2: "deleteResource env opr csvGVR ?csv (namespace opr) t2 = (Ok (), t3)"
    and ns: "\<forall>e. respond env t3 (Create namespaceGVR '''' (namespaceObject (namespace opr))) = Inl e
               \<longrightarrow> IsAlreadyExists e"
    by simp_all
  from InstallSubscription_creates [OF InstallArtifactVersion_csv [OF p] s1 s2 ns, of ?ch]
  show "\<exists>rn rs z. snd (UpgradeOperator env opr version t) =
             t3 @ Call (Create namespaceGVR '''' (namespaceObject (namespace opr))) rn #
                  Call (Create subscriptionGVR (namespace opr)
                          (subscriptionObject (name opr) (namespace opr) ?csv ?ch)) rs # z"
    unfolding u by blast
next
  fix t'
  let ?ch = "if Channel version = '''' then ''stable'' else Channel version"
  let ?nq = "\<lambda>ev. \<not> isSubscriptionCreate ev"
  assume run: "UpgradeOperator env opr version t = (Ok (), t')"
  obtain r0 t1 where p0: "InstallArtifactVersion env opr (BundleVersion version) t = (r0, t1)"
    by (metis prod.exhaust)
  from run p0 obtain av where r0: "r0 = Ok av"
    by (cases r0) (auto simp: UpgradeOperator_def check_def)
  note p = p0 [unfolded r0]
  let ?csv = "fst (NestedString av [''status'', ''version''])"
  obtain r1 t1' where i0: "InstallSubscription env opr ?csv ?ch t1 = (r1, t1')"
    by (metis prod.exhaust)
  from run p i0 have "r1 = Ok () \<and> t1' = t'"
    by (cases r1) (auto simp: UpgradeOperator_def check_def Let_def)
  with i0 have i: "InstallSubscription env opr ?csv ?ch t1 = (Ok (), t')" by simp
  from InstallSubscription_Ok [OF i] obtain t2 t3 where
    s1: "deleteResource env opr subscriptionGVR (name opr) (namespace opr) t1 = (Ok (), t2)" and
    s2: "deleteResource env opr csvGVR ?csv (namespace opr) t2 = (Ok (), t3)" and
    ns: "\<forall>e. respond env t3 (Create namespaceGVR '''' (namespaceObject (namespace opr))) = Inl e
               \<longrightarrow> IsAlreadyExists e"
    by blast
  from extends_trans [OF deleteResource_extends [OF quiet_not_create s1]
                         deleteResource_extends [OF quiet_not_create s2]]
  obtain x where x: "t3 = t1 @ x" "\<not> list_ex isSubscriptionCreate x"
    by (auto simp: extends_with_def list_all_iff list_ex_iff)
  from InstallSubscription_creates [OF InstallArtifactVersion_csv [OF p] s1 s2 ns, of ?ch] i
  obtain rn rs z where
    "t' = t3 @ Call (Create namespaceGVR '''' (namespaceObject (namespace opr))) rn #
               Call (Create subscriptionGVR (namespace opr)
                       (subscriptionObject (name opr) (namespace opr) ?csv ?ch)) rs # z"
    by auto
  with x p show "\<exists>av t1 x rn rs z.
         InstallArtifactVersion env opr (BundleVersion version) t = (Ok av, t1) \<and>
         t' = t1 @ x @
              Call (Create namespaceGVR '''' (namespaceObject (namespace opr))) rn #
              Call (Create subscriptionGVR (namespace opr)
                      (subscriptionObject (name opr) (namespace opr)
                         (fst (NestedString av [''status'', ''version'']))
                         (if Channel version = '''' then ''stable'' else Channel version))) rs # z \<and>
         \<not> list_ex isSubscriptionCreate x"
    by (metis append.assoc)
qed

lemma prepare_run:
  "InstallArtifactVersion upgradeCluster demoOperator ''v1'' [] = (Ok demoArtifactVersion, prepareJournal)"
  by (simp add: InstallArtifactVersion_def check_def GetResource_def invoke_def upgrade_respond
        createArtifactVersion_def GetName_def NestedString_def demoArtifact_def
        waitArtifactVersionPresent_def PollUntilContextTimeout_def presentCondition_def
        phaseIs_def NestedMap_def demoArtifactVersion_def waitPackageManifest_def
        packageManifestCondition_def NestedSlice_def demoPackageManifest_def channelMatches_def
        entryMatches_def prepareJournal_def)

text \<open>
  Two upgrades on the cluster in the middle of an upgrade, one for a version without a
  channel and one for a version of channel \<open>alpha\<close>: both return nil, and the Subscription is
  created with \<open>stable\<close> in the first and with \<open>alpha\<close> in the second.
\<close>

lemma alpha_run_after:
  "InstallSubscription upgradeCluster demoOperator ''op.v1'' ''alpha'' prepareJournal =
     (Ok (), prepareJournal @ alphaJournal)"
  by (simp add: upgrade_eval prepareJournal_def alphaJournal_def alphaCreate_def alphaCreated_def)

lemma upgrade_deleted_subscription:
  "deleteResource upgradeCluster demoOperator subscriptionGVR ''op'' ''ns'' prepareJournal =
     (Ok (), prepareJournal @ take 4 upgradeJournal)"
  by (simp add: upgrade_eval prepareJournal_def)

lemma upgrade_deleted_csv:
  "deleteResource upgradeCluster demoOperator csvGVR ''op.v1'' ''ns''
     (prepareJournal @ take 4 upgradeJournal) = (Ok (), prepareJournal @ take 6 upgradeJournal)"
  by (simp add: upgrade_eval prepareJournal_def)

theorem UpgradeOperator_channel_witness:
  "UpgradeOperator upgradeCluster demoOperator demoVersion [] = (Ok (), prepareJournal @ upgradeJournal) \<and>
   Channel demoVersion = [] \<and>
   upgradeJournal ! 7 = Call demoCreate created \<and>
   isSubscriptionCreate (Call demoCreate created) \<and>
   extends_with (channelIs ''stable'') [] (prepareJournal @ upgradeJournal) \<and>
   UpgradeOperator upgradeCluster demoOperator alphaVersion [] = (Ok (), prepareJournal @ alphaJournal) \<and>
   Channel alphaVersion = ''alpha'' \<and>
   alphaJournal ! 7 = Call alphaCreate alphaCreated \<and>
   extends_with (channelIs ''alpha'') [] (prepareJournal @ alphaJournal) \<and>
   InstallArtifactVersion upgradeCluster demoOperator (BundleVersion alphaVersion) [] =
     (Ok demoArtifactVersion, prepareJournal) \<and>
   fst (NestedString demoArtifactVersion [''status'', ''version'']) = ''op.v1'' \<and>
   deleteResource upgradeCluster demoOperator subscriptionGVR ''op'' ''ns'' prepareJournal =
     (Ok (), prepareJournal @ take 4 upgradeJournal) \<and>
   deleteResource upgradeCluster demoOperator csvGVR ''op.v1'' ''ns''
     (prepareJournal @ take 4 upgradeJournal) = (Ok (), prepareJournal @ take 6 upgradeJournal) \<and>
   respond upgradeCluster (prepareJournal @ take 6 upgradeJournal)
     (Create namespaceGVR '''' (namespaceObject ''ns'')) = Inr (namespaceObject ''ns'') \<and>
   (\<exists>rn rs z. prepareJournal @ alphaJournal =
      (prepareJournal @ take 6 upgradeJournal) @
      Call (Create namespaceGVR '''' (namespaceObject ''ns'')) rn # Call alphaCreate rs # z) \<and>
   (\<exists>x rn rs z. prepareJournal @ upgradeJournal =
      prepareJournal @ x @
      Call (Create namespaceGVR '''' (namespaceObject ''ns'')) rn # Call demoCreate rs # z \<and>
      \<not> list_ex isSubscriptionCreate x)"
proof -
  note thm1 = UpgradeOperator_channel [of demoVersion "[]" upgradeCluster demoOperator]
  note thm2 = UpgradeOperator_channel [of alphaVersion "[]" upgradeCluster demoOperator]
  have run: "UpgradeOperator upgradeCluster demoOperator demoVersion [] =
               (Ok (), prepareJournal @ upgradeJournal)"
    by (simp add: UpgradeOperator_def check_def demoVersion_def prepare_run NestedString_def
          demoArtifactVersion_def upgrade_run_after)
  have run2: "UpgradeOperator upgradeCluster demoOperator alphaVersion [] =
               (Ok (), prepareJournal @ alphaJournal)"
    by (simp add: UpgradeOperator_def check_def alphaVersion_def prepare_run NestedString_def
          demoArtifactVersion_def alpha_run_after)
  have ch: "Channel demoVersion = []"
    by (simp add: demoVersion_def)
  have ch2: "Channel alphaVersion = ''alpha''"
    by (simp add: alphaVersion_def)
  have at: "upgradeJournal ! 7 = Call demoCreate created"
    by (simp add: upgradeJournal_def)
  have at2: "alphaJournal ! 7 = Call alphaCreate alphaCreated"
    by (simp add: alphaJournal_def upgradeJournal_def)
  have cr: "isSubscriptionCreate (Call demoCreate created)"
    by (simp add: demoCreate_def)
  have prep: "InstallArtifactVersion upgradeCluster demoOperator (BundleVersion alphaVersion) [] =
                (Ok demoArtifactVersion, prepareJournal)"
    by (simp add: alphaVersion_def prepare_run)
  have prep1: "InstallArtifactVersion upgradeCluster demoOperator (BundleVersion demoVersion) [] =
                (Ok demoArtifactVersion, prepareJournal)"
    by (simp add: demoVersion_def prepare_run)
  have csv: "fst (NestedString demoArtifactVersion [''status'', ''version'']) = ''op.v1''"
    by (simp add: NestedString_def demoArtifactVersion_def)
  note d1 = upgrade_deleted_subscription
  note d2 = upgrade_deleted_csv
  have ns: "respond upgradeCluster (prepareJournal @ take 6 upgradeJournal)
              (Create namespaceGVR '''' (namespaceObject ''ns'')) = Inr (namespaceObject ''ns'')"
    by (simp add: upgrade_respond)
  from thm1 have safe: "extends_with (channelIs ''stable'') [] (prepareJournal @ upgradeJournal)"
    by (simp add: run ch)
  from thm2 have safe2: "extends_with (channelIs ''alpha'') [] (prepareJournal @ alphaJournal)"
    by (simp add: run2 ch2)
  from thm2 have "InstallArtifactVersion upgradeCluster demoOperator (BundleVersion alphaVersion) [] =
        (Ok demoArtifactVersion, prepareJournal) \<and>
      deleteResource upgradeCluster demoOperator subscriptionGVR (name demoOperator)
        (namespace demoOperator) prepareJournal = (Ok (), prepareJournal @ take 4 upgradeJournal) \<and>
      deleteResource upgradeCluster demoOperator csvGVR
        (fst (NestedString demoArtifactVersion [''status'', ''version'']))
        (namespace demoOperator) (prepareJournal @ take 4 upgradeJournal) =
        (Ok (), prepareJournal @ take 6 upgradeJournal) \<and>
      (\<forall>e. respond upgradeCluster (prepareJournal @ take 6 upgradeJournal)
              (Create namespaceGVR '''' (namespaceObject (namespace demoOperator))) = Inl e
             \<longrightarrow> IsAlreadyExists e)
      \<longrightarrow> (\<exists>rn rs z. snd (UpgradeOperator upgradeCluster demoOperator alphaVersion []) =
             (prepareJournal @ take 6 upgradeJournal) @
                  Call (Create namespaceGVR '''' (namespaceObject (namespace demoOperator))) rn #
                  Call (Create subscriptionGVR (namespace demoOperator)
                          (subscriptionObject (name demoOperator) (namespace demoOperator)
                             (fst (NestedString demoArtifactVersion [''status'', ''version'']))
                             (if Channel alphaVersion = '''' then ''stable'' else Channel alphaVersion))) rs # z)"
    by blast
  with prep d1 d2 ns csv ch2 run2
  have live: "\<exists>rn rs z. prepareJournal @ alphaJournal =
      (prepareJournal @ take 6 upgradeJournal) @
      Call (Create namespaceGVR '''' (namespaceObject ''ns'')) rn # Call alphaCreate rs # z"
    by (simp add: alphaCreate_def)
  from thm1 have "\<forall>t'. UpgradeOperator upgradeCluster demoOperator demoVersion [] = (Ok (), t') \<longrightarrow>
      (\<exists>av t1 x rn rs z.
         InstallArtifactVersion upgradeCluster demoOperator (BundleVersion demoVersion) [] = (Ok av, t1) \<and>
         t' = t1 @ x @
              Call (Create namespaceGVR '''' (namespaceObject (namespace demoOperator))) rn #
              Call (Create subscriptionGVR (namespace demoOperator)
                      (subscriptionObject (name demoOperator) (namespace demoOperator)
                         (fst (NestedString av [''status'', ''version'']))
                         (if Channel demoVersion = '''' then ''stable'' else Channel demoVersion))) rs # z \<and>
         \<not> list_ex isSubscriptionCreate x)"
    by blast
  with run prep1 ch csv
  have success: "\<exists>x rn rs z. prepareJournal @ upgradeJournal =
      prepareJournal @ x @
      Call (Create namespaceGVR '''' (namespaceObject ''ns'')) rn # Call demoCreate rs # z \<and>
      \<not> list_ex isSubscriptionCreate x"
    by (simp add: demoCreate_def)
  from run ch at cr safe run2 ch2 at2 safe2 prep csv d1 d2 ns live success
  show ?thesis by (intro conjI)
qed

section \<open>The failure policy of the path loop\<close>

lemma processPaths_append:
  "processPaths env cfg oper pre t = (Ok u, oper1, t1) \<Longrightarrow>
     processPaths env cfg oper (pre @ rest) t = processPaths env cfg oper1 rest t1"
proof (induction pre arbitrary: oper t)
  case Nil
  then show ?case by simp
next
  case (Cons path pre)
  obtain r oper' t' where p: "process env cfg oper path t = (r, oper', t')"
    by (metis prod.exhaust)
  show ?case
  proof (cases r)
    case (Ok v)
    with Cons.prems p have "processPaths env cfg oper' pre t' = (Ok u, oper1, t1)" by simp
    from Cons.IH [OF this] Ok p show ?thesis by simp
  next
    case (Err e)
    show ?thesis
    proof (cases "Immediate cfg")
      case True
      with Cons.prems p Err show ?thesis by simp
    next
      case False
      with Cons.prems p Err
      have "processPaths env cfg oper' pre
              (t' @ [LogError ''failed to process upgrade path'' (UpgradePath.Name path) e])
            = (Ok u, oper1, t1)"
        by simp
      from Cons.IH [OF this] Err p False show ?thesis by simp
    qed
  next
    case (Panic m)
    with Cons.prems p show ?thesis by simp
  qed
qed

text \<open>
  Claim C3. Let the loop over the upgrade paths have gone through the paths \<open>pre\<close> and reach
  \<open>path\<close>, whose processing returns an error. If \<open>Immediate\<close> is set, the loop stops there:
  it returns that error, wrapped with the name of the path, and the journal is the one the
  failing path left, whatever paths \<open>post\<close> were still to come. If \<open>Immediate\<close> is not set, the
  failure is logged and the loop goes on with the paths \<open>post\<close>.
\<close>

theorem processPaths_failure_policy:
  assumes before: "processPaths env cfg oper pre t = (Ok u, oper1, t1)"
      and fails: "process env cfg oper1 path t1 = (Err e, oper2, t2)"
  shows "(Immediate cfg \<longrightarrow>
            processPaths env cfg oper (pre @ path # post) t =
              (Err (ErrorString (''failed to process upgrade path: '' @ UpgradePath.Name path @
                      '', error: '' @ Error e)), oper2, t2)) \<and>
         (\<not> Immediate cfg \<longrightarrow>
            processPaths env cfg oper (pre @ path # post) t =
              processPaths env cfg oper2 post
                (t2 @ [LogError ''failed to process upgrade path'' (UpgradePath.Name path) e]))"
  using fails by (simp add: processPaths_append [OF before])


lemma processPaths_never_Err:
  "\<not> Immediate cfg \<Longrightarrow> fst (processPaths env cfg oper paths t) \<noteq> Err e"
proof (induction paths arbitrary: oper t)
  case Nil
  then show ?case by simp
next
  case (Cons path paths)
  obtain r oper' t' where p: "process env cfg oper path t = (r, oper', t')"
    by (metis prod.exhaust)
  with Cons show ?case by (cases r) auto
qed

lemma defaultConfig_Immediate: "Immediate (defaultConfig c) = Immediate c"
  by (simp add: defaultConfig_def Let_def)

text \<open>
  Claim C4, as amended. When \<open>Immediate\<close> is not set, the loop over the upgrade paths never
  returns an error: failed paths are logged and passed over. So an error that \<open>Execute\<close>
  returns under a configuration without \<open>Immediate\<close> comes from its setup, before any path
  was processed (the journal is untouched); once the loop has started, \<open>Execute\<close> returns nil
  however many paths have failed.
\<close>

theorem Execute_continue_returns_nil:
  "(\<not> Immediate cfg \<longrightarrow> (\<forall>e. fst (processPaths env cfg oper paths t) \<noteq> Err e)) \<and>
   (\<forall>c e t'. readConfig env (configFile uc) = Inr c \<and> \<not> Immediate c \<and>
       Execute env uc t = (Err e, t') \<longrightarrow> t' = t)"
proof (intro conjI impI allI)
  fix e assume "\<not> Immediate cfg"
  then show "fst (processPaths env cfg oper paths t) \<noteq> Err e"
    by (rule processPaths_never_Err)
next
  fix c e t'
  assume a: "readConfig env (configFile uc) = Inr c \<and> \<not> Immediate c \<and> Execute env uc t = (Err e, t')"
  have nerr: "Immediate cfg'" if "processPaths env cfg' oper' ps t = (Err e, x, t'')"
    for cfg' oper' ps x t''
    using processPaths_never_Err [of cfg' env oper' ps t e] that by auto
  show "t' = t"
    using a
    by (auto simp: Execute_def LoadConfig_def Let_def defaultConfig_Immediate
             split: option.splits sum.splits prod.splits if_splits dest: nerr)
qed

text \<open>On a host where every process fails, with the local operator.\<close>

lemma failing_upgrade:
  "OperatorInterface_UpgradeOperator failingHost demoLocal version t =
     (Err (ErrorString ''failed to run deploy command: failed to run deploy command: exit status 1''),
      demoLocal, t @ [Run deploy (Some exitStatus)])"
  by (simp add: demoLocal_def LocalOperator_UpgradeOperator_def runDeployCommand_def
        RunCommand_def failingHost_def check_def Errorf_def exitStatus_def deploy_def)

lemma failing_process:
  "Versions path \<noteq> [] \<Longrightarrow>
     process failingHost cfg demoLocal path t = (Err deployError, demoLocal, t @ [Run deploy (Some exitStatus)])"
  by (cases "Versions path") (simp_all add: process_def failing_upgrade Errorf_def deployError_def)

lemma demo_paths [simp]:
  "Versions demoPath \<noteq> []" "Versions otherPath \<noteq> []"
  "UpgradePath.Name demoPath = ''v1-to-v3''" "UpgradePath.Name otherPath = ''v2-only''"
  by (simp_all add: demoPath_def otherPath_def)

lemma demoConfig_fields [simp]:
  "Immediate (demoConfig b) = b" "UpgradePaths (demoConfig b) = [demoPath, otherPath]"
  by (simp_all add: demoConfig_def)

theorem processPaths_failure_policy_witness:
  "processPaths failingHost (demoConfig True) demoLocal [demoPath, otherPath] [] =
     (Err (ErrorString (''failed to process upgrade path: v1-to-v3, error: '' @ Error deployError)),
      demoLocal, [Run deploy (Some exitStatus)]) \<and>
   processPaths failingHost (demoConfig False) demoLocal [demoPath, otherPath] [] =
     (Ok (), demoLocal,
      [Run deploy (Some exitStatus),
       LogError ''failed to process upgrade path'' ''v1-to-v3'' deployError,
       Run deploy (Some exitStatus),
       LogError ''failed to process upgrade path'' ''v2-only'' deployError])"
proof -
  have before: "processPaths failingHost (demoConfig b) demoLocal [] [] = (Ok (), demoLocal, [])" for b
    by simp
  have fails: "process failingHost (demoConfig b) demoLocal demoPath [] =
                 (Err deployError, demoLocal, [Run deploy (Some exitStatus)])" for b
    by (simp add: failing_process)
  note th = processPaths_failure_policy [OF before fails, of _ "[otherPath]"]
  have a: "processPaths failingHost (demoConfig True) demoLocal [demoPath, otherPath] [] =
     (Err (ErrorString (''failed to process upgrade path: v1-to-v3, error: '' @ Error deployError)),
      demoLocal, [Run deploy (Some exitStatus)])"
    using th [of True] by simp
  have b: "processPaths failingHost (demoConfig False) demoLocal [demoPath, otherPath] [] =
     (Ok (), demoLocal,
      [Run deploy (Some exitStatus),
       LogError ''failed to process upgrade path'' ''v1-to-v3'' deployError,
       Run deploy (Some exitStatus),
       LogError ''failed to process upgrade path'' ''v2-only'' deployError])"
    using th [of False] by (simp add: failing_process)
  from a b show ?thesis ..
qed


lemma failing_setup:
  "LoadConfig failingHost (configFile demoCommand) = Inr (demoConfig False)"
  "CreateOperator failingHost ''local'' (OperatorConfig (demoConfig False)) = Inr demoLocal"
  by (simp_all add: LoadConfig_def failingHost_def defaultConfig_def demoConfig_def Let_def Second_def
        CreateOperator_def NewLocalOperator_def demoLocal_def)

lemma failing_Execute:
  "Execute failingHost demoCommand [] =
     (Ok (),
      [Run deploy (Some exitStatus),
       LogError ''failed to process upgrade path'' ''v1-to-v3'' deployError,
       Run deploy (Some exitStatus),
       LogError ''failed to process upgrade path'' ''v2-only'' deployError])"
proof -
  have "Type (OperatorConfig (demoConfig False)) = ''local''" "workspace demoCommand = ''''"
       "newLogger failingHost lvl = None" "loadKubeConfig failingHost p = None" for lvl p
    by (simp_all add: demoConfig_def demoCommand_def newLogger_def failingHost_def)
  then show ?thesis
    by (simp add: Execute_def failing_setup failing_process)
qed

text \<open>
  Claim C4, as stated, fails: with \<open>Immediate\<close> not set and every path failing, the last one
  included, \<open>Execute\<close> returns nil.
\<close>

theorem Execute_continue_counterexample:
  "\<not> Immediate (demoConfig False) \<and>
   readConfig failingHost (configFile demoCommand) = Inr (demoConfig False) \<and>
   process failingHost (demoConfig False) demoLocal otherPath
     [Run deploy (Some exitStatus), LogError ''failed to process upgrade path'' ''v1-to-v3'' deployError] =
     (Err deployError, demoLocal,
      [Run deploy (Some exitStatus), LogError ''failed to process upgrade path'' ''v1-to-v3'' deployError,
       Run deploy (Some exitStatus)]) \<and>
   Execute failingHost demoCommand [] =
     (Ok (),
      [Run deploy (Some exitStatus),
       LogError ''failed to process upgrade path'' ''v1-to-v3'' deployError,
       Run deploy (Some exitStatus),
       LogError ''failed to process upgrade path'' ''v2-only'' deployError])"
  by (simp add: failing_Execute failing_process) (simp add: failingHost_def)

theorem Execute_continue_returns_nil_witness:
  "\<not> Immediate (demoConfig False) \<and>
   fst (processPaths failingHost (demoConfig False) demoLocal [demoPath, otherPath] []) \<noteq> Err deployError \<and>
   readConfig badLevelHost (configFile demoCommand) = Inr (demoConfig False) \<and>
   Execute badLevelHost demoCommand [] =
     (Err (ErrorString ''failed to create logger: invalid log level: unrecognized level''), [])"
proof -
  note th = Execute_continue_returns_nil
    [where cfg = "demoConfig False" and env = failingHost and oper = demoLocal
       and paths = "[demoPath, otherPath]" and t = "[]"]
  note th' = Execute_continue_returns_nil [where env = badLevelHost and uc = demoCommand and t = "[]"]
  have ni: "\<not> Immediate (demoConfig False)" by simp
  have a: "fst (processPaths failingHost (demoConfig False) demoLocal [demoPath, otherPath] []) \<noteq> Err deployError"
    using th ni by blast
  have rc: "readConfig badLevelHost (configFile demoCommand) = Inr (demoConfig False)"
    by (simp add: badLevelHost_def failingHost_def)
  obtain r t' where ex: "Execute badLevelHost demoCommand [] = (r, t')"
    by (metis prod.exhaust)
  have r: "r = Err (ErrorString ''failed to create logger: invalid log level: unrecognized level'')"
    using ex rc
    by (simp add: Execute_def LoadConfig_def defaultConfig_def demoConfig_def Let_def Second_def
          demoCommand_def newLogger_def badLevelHost_def failingHost_def Errorf_def)
  have "t' = []"
    using th' rc ni ex [unfolded r] by blast
  with a ni rc ex r show ?thesis by simp
qed

section \<open>The test command of a version\<close>

lemma OperatorInterface_UpgradeOperator_grows:
  assumes "OperatorInterface_UpgradeOperator env oper version t = (r, oper', t')"
  shows "\<exists>z. t' = t @ z"
proof (cases oper)
  case (OperatorHub opr)
  with assms have "UpgradeOperator env opr version t = (r, t')"
    by (auto split: prod.splits)
  from extends_mono [OF UpgradeOperator_extends [OF this], of "\<lambda>ev. True"]
  show ?thesis by (auto dest: extends_TrueD)
next
  case (Local lop)
  with assms show ?thesis
    by (auto simp: LocalOperator_UpgradeOperator_def runDeployCommand_def RunCommand_def check_def
             Let_def split: prod.splits option.splits if_splits)
qed

lemma execCommand_journal:
  "snd (execCommand env dir cmd t) =
     t @ [Run \<lparr>Command.Name = ''bash'', Args = [''-c'', cmd], Dir = dir, Env = []\<rparr>
            (runProcess env t \<lparr>Command.Name = ''bash'', Args = [''-c'', cmd], Dir = dir, Env = []\<rparr>)]"
  by (simp add: execCommand_def RunCommand_def split: option.splits)

lemma processVersions_grows:
  "processVersions env cfg oper i vs t = (r, oper', t') \<Longrightarrow> \<exists>z. t' = t @ z"
proof (induction vs arbitrary: oper i t)
  case Nil
  then show ?case by simp
next
  case (Cons version vs)
  obtain r1 oper1 t1 where u: "OperatorInterface_UpgradeOperator env oper version t = (r1, oper1, t1)"
    by (metis prod.exhaust)
  from OperatorInterface_UpgradeOperator_grows [OF u] obtain z1 where z1: "t1 = t @ z1" ..
  show ?case
  proof (cases r1)
    case (Ok v)
    let ?cmd = "if TestCommand version \<noteq> '''' then TestCommand version
                else if i = 0 then ''REPO=allure make prepare'' else ''REPO=allure make upgrade''"
    let ?dir = "if TestSubPath version \<noteq> ''''
                then Workspace (OperatorConfig cfg) @ ''/'' @ TestSubPath version
                else Workspace (OperatorConfig cfg)"
    obtain r2 t2 where e: "execCommand env ?dir ?cmd t1 = (r2, t2)"
      by (metis prod.exhaust)
    from execCommand_journal [of env ?dir ?cmd t1] e obtain z2 where z2: "t2 = t1 @ z2"
      by auto
    show ?thesis
    proof (cases r2)
      case ok2: (Ok v2)
      with Cons.prems u Ok e have "processVersions env cfg oper1 (i + 1) vs t2 = (r, oper', t')"
        by (auto simp: Let_def split: if_splits)
      from Cons.IH [OF this] z1 z2 show ?thesis by auto
    next
      case (Err x)
      with Cons.prems u Ok e z1 z2 show ?thesis by (auto simp: Let_def split: if_splits)
    next
      case (Panic x)
      with Cons.prems u Ok e z1 z2 show ?thesis by (auto simp: Let_def split: if_splits)
    qed
  next
    case (Err x)
    with Cons.prems u z1 show ?thesis by auto
  next
    case (Panic x)
    with Cons.prems u z1 show ?thesis by auto
  qed
qed

lemma processVersions_append:
  "processVersions env cfg oper i pre t = (Ok u, oper1, t1) \<Longrightarrow>
     processVersions env cfg oper i (pre @ rest) t =
       processVersions env cfg oper1 (i + length pre) rest t1"
proof (induction pre arbitrary: oper i t)
  case Nil
  then show ?case by simp
next
  case (Cons version pre)
  obtain r1 oper' t' where up: "OperatorInterface_UpgradeOperator env oper version t = (r1, oper', t')"
    by (metis prod.exhaust)
  show ?case
  proof (cases r1)
    case (Ok v)
    let ?cmd = "if TestCommand version \<noteq> '''' then TestCommand version
                else if i = 0 then ''REPO=allure make prepare'' else ''REPO=allure make upgrade''"
    let ?dir = "if TestSubPath version \<noteq> ''''
                then Workspace (OperatorConfig cfg) @ ''/'' @ TestSubPath version
                else Workspace (OperatorConfig cfg)"
    obtain r2 t2 where e: "execCommand env ?dir ?cmd t' = (r2, t2)"
      by (metis prod.exhaust)
    show ?thesis
    proof (cases r2)
      case ok2: (Ok v2)
      with Cons.prems up Ok e have "processVersions env cfg oper' (i + 1) pre t2 = (Ok u, oper1, t1)"
        by (auto simp: Let_def split: if_splits)
      from Cons.IH [OF this] up Ok e ok2 show ?thesis
        by (auto simp: Let_def split: if_splits)
    next
      case (Err x)
      with Cons.prems up Ok e show ?thesis by (auto simp: Let_def split: if_splits)
    next
      case (Panic x)
      with Cons.prems up Ok e show ?thesis by (auto simp: Let_def split: if_splits)
    qed
  next
    case (Err x)
    with Cons.prems up show ?thesis by auto
  next
    case (Panic x)
    with Cons.prems up show ?thesis by auto
  qed
qed

text \<open>
  Claim C7. Let the loop of \<open>process\<close> have gone through the versions \<open>pre\<close> of the path and
  let the operator have been upgraded to the next version, which therefore has index
  \<open>length pre\<close>. The next thing that happens is the run of \<open>bash -c\<close> with the version's own
  \<open>TestCommand\<close> if that is not empty, and otherwise with the "prepare" command at index 0 and
  the "upgrade" command at every later index; it runs in the workspace, or in the version's
  sub-path of it.
\<close>

theorem process_test_command:
  assumes path: "Versions path = pre @ version # post"
      and before: "processVersions env cfg oper 0 pre t = (Ok u, oper1, t1)"
      and upgraded: "OperatorInterface_UpgradeOperator env oper1 version t1 = (Ok u', oper2, t2)"
  shows "\<exists>res z.
           snd (snd (process env cfg oper path t)) =
             t2 @ Run \<lparr>Command.Name = ''bash'',
                       Args = [''-c'',
                               if TestCommand version \<noteq> '''' then TestCommand version
                               else if length pre = 0 then ''REPO=allure make prepare''
                               else ''REPO=allure make upgrade''],
                       Dir = (if TestSubPath version \<noteq> ''''
                              then Workspace (OperatorConfig cfg) @ ''/'' @ TestSubPath version
                              else Workspace (OperatorConfig cfg)),
                       Env = []\<rparr> res # z"
proof -
  let ?cmd = "if TestCommand version \<noteq> '''' then TestCommand version
              else if length pre = 0 then ''REPO=allure make prepare'' else ''REPO=allure make upgrade''"
  let ?dir = "if TestSubPath version \<noteq> ''''
              then Workspace (OperatorConfig cfg) @ ''/'' @ TestSubPath version
              else Workspace (OperatorConfig cfg)"
  let ?c = "\<lparr>Command.Name = ''bash'', Args = [''-c'', ?cmd], Dir = ?dir, Env = []\<rparr>"
  let ?t3 = "t2 @ [Run ?c (runProcess env t2 ?c)]"
  have p: "process env cfg oper path t =
             processVersions env cfg oper1 (length pre) (version # post) t1"
    using processVersions_append [OF before, of "version # post"] path
    by (simp add: process_def)
  obtain r2 t3 where e: "execCommand env ?dir ?cmd t2 = (r2, t3)"
    by (metis prod.exhaust)
  from execCommand_journal [of env ?dir ?cmd t2] e have t3: "t3 = ?t3" by simp
  have "\<exists>z. snd (snd (process env cfg oper path t)) = ?t3 @ z"
  proof (cases r2)
    case (Ok v)
    obtain r oper' t' where rest:
      "processVersions env cfg oper2 (length pre + 1) post t3 = (r, oper', t')"
      by (metis prod.exhaust)
    from processVersions_grows [OF rest] obtain z where "t' = t3 @ z" ..
    moreover have "snd (snd (process env cfg oper path t)) = t'"
      using p upgraded e Ok rest by (auto simp: Let_def split: if_splits)
    ultimately show ?thesis using t3 by auto
  next
    case (Err x)
    with p upgraded e have "snd (snd (process env cfg oper path t)) = t3"
      by (auto simp: Let_def split: if_splits)
    with t3 show ?thesis by simp
  next
    case (Panic x)
    with p upgraded e have "snd (snd (process env cfg oper path t)) = t3"
      by (auto simp: Let_def split: if_splits)
    with t3 show ?thesis by simp
  qed
  then show ?thesis by auto
qed

lemma working_upgrade:
  "OperatorInterface_UpgradeOperator (flakyCluster 0) demoLocal version t =
     (Ok (), demoLocal, t @ [Run deploy None])"
  by (simp add: demoLocal_def LocalOperator_UpgradeOperator_def runDeployCommand_def
        RunCommand_def flakyCluster_def check_def deploy_def)

lemma working_exec:
  "execCommand (flakyCluster 0) dir cmd t = (Ok (), t @ [Run (test cmd dir) None])"
  by (simp add: execCommand_def RunCommand_def flakyCluster_def test_def)

lemma demo_versions [simp]:
  "TestCommand demoVersion = ''''" "TestSubPath demoVersion = ''''"
  "TestCommand demoSecond = ''''" "TestSubPath demoSecond = ''''"
  "TestCommand demoThird = ''make e2e''" "TestSubPath demoThird = ''testing''"
  "Versions demoPath = [demoVersion, demoSecond, demoThird]"
  "Workspace (OperatorConfig (demoConfig b)) = ''./''"
  by (simp_all add: demoVersion_def demoSecond_def demoThird_def demoPath_def demoConfig_def)

lemma working_process:
  "process (flakyCluster 0) (demoConfig False) demoLocal demoPath [] = (Ok (), demoLocal, demoRun)"
  by (simp add: process_def working_upgrade working_exec demoRun_def)

theorem process_test_command_witness:
  "process (flakyCluster 0) (demoConfig False) demoLocal demoPath [] = (Ok (), demoLocal, demoRun) \<and>
   (\<exists>res z. demoRun = [Run deploy None] @ Run (test ''REPO=allure make prepare'' ''./'') res # z) \<and>
   (\<exists>res z. demoRun = take 3 demoRun @ Run (test ''REPO=allure make upgrade'' ''./'') res # z) \<and>
   (\<exists>res z. demoRun = take 5 demoRun @ Run (test ''make e2e'' ''.//testing'') res # z)"
proof -
  let ?E = "flakyCluster 0" and ?C = "demoConfig False"
  have p0: "Versions demoPath = [] @ demoVersion # [demoSecond, demoThird]"
   and p1: "Versions demoPath = [demoVersion] @ demoSecond # [demoThird]"
   and p2: "Versions demoPath = [demoVersion, demoSecond] @ demoThird # []"
    by simp_all
  have b0: "processVersions ?E ?C demoLocal 0 [] [] = (Ok (), demoLocal, [])"
    by simp
  have b1: "processVersions ?E ?C demoLocal 0 [demoVersion] [] = (Ok (), demoLocal, take 2 demoRun)"
    by (simp add: working_upgrade working_exec demoRun_def)
  have b2: "processVersions ?E ?C demoLocal 0 [demoVersion, demoSecond] [] =
              (Ok (), demoLocal, take 4 demoRun)"
    by (simp add: working_upgrade working_exec demoRun_def)
  have u0: "OperatorInterface_UpgradeOperator ?E demoLocal demoVersion [] =
              (Ok (), demoLocal, [Run deploy None])"
    by (simp add: working_upgrade)
  have u1: "OperatorInterface_UpgradeOperator ?E demoLocal demoSecond (take 2 demoRun) =
              (Ok (), demoLocal, take 3 demoRun)"
    by (simp add: working_upgrade demoRun_def)
  have u2: "OperatorInterface_UpgradeOperator ?E demoLocal demoThird (take 4 demoRun) =
              (Ok (), demoLocal, take 5 demoRun)"
    by (simp add: working_upgrade demoRun_def)
  note run = working_process
  have a: "\<exists>res z. demoRun = [Run deploy None] @ Run (test ''REPO=allure make prepare'' ''./'') res # z"
    using process_test_command [OF p0 b0 u0] by (simp add: run test_def)
  have b: "\<exists>res z. demoRun = take 3 demoRun @ Run (test ''REPO=allure make upgrade'' ''./'') res # z"
    using process_test_command [OF p1 b1 u1] by (simp add: run test_def)
  have c: "\<exists>res z. demoRun = take 5 demoRun @ Run (test ''make e2e'' ''.//testing'') res # z"
    using process_test_command [OF p2 b2 u2] by (simp add: run test_def)
  from run a b c show ?thesis by (intro conjI)
qed

end
